theory Spec2Isabelle
  imports Complex_Main "HOL-Library.Multiset" "HOL-Library.Sublist"
begin

section \<open>Domain model (src/types.ts)\<close>

text \<open>
  Timestamps are Unix times in milliseconds (\<open>Date.getTime()\<close>, \<open>Date.now()\<close>): integers,
  all of them representable as JavaScript numbers.  The current time, which the source
  reads from \<open>Date.now()\<close>, is the explicit argument \<open>now\<close>.
\<close>

datatype priority = LOW | MEDIUM | HIGH

datatype task_status = PENDING | COMPLETED

record subtask =
  subtask_id :: string
  subtask_title :: string
  isCompleted :: bool

record task =
  task_id :: string
  title :: string
  description :: string
  priority :: priority
  deadline :: int
  status :: task_status
  createdAt :: int
  tags :: "string list"
  subtasks :: "subtask list"
  completedAt :: "int option"

text \<open>\<open>ScoredTask extends Task\<close> with the derived \<open>score\<close>.\<close>

record scored_task = task +
  score :: real

section \<open>JavaScript numbers\<close>

text \<open>
  A JavaScript number is an IEEE 754 double.  A finite double is a real number with 53
  significant bits, and every arithmetic operation returns the exact result rounded to
  the nearest double, a tie going to the even significand.  \<open>double\<close> is that rounding:
  for \<open>2 ^ e \<le> \<bar>x\<bar> < 2 ^ (e + 1)\<close> the doubles around \<open>x\<close> are the multiples of
  \<open>2 ^ (e - 52)\<close>.  The exponent is not bounded here: overflow to \<open>Infinity\<close> and the
  subnormal numbers below \<open>2 ^ -1022\<close> are left out, and no quantity that the score
  functions form from timestamps comes near either.
\<close>

definition round_even :: "real \<Rightarrow> int" where
  "round_even y =
     (let f = \<lfloor>y\<rfloor>; d = y - of_int f
      in if d < 1 / 2 then f else if 1 / 2 < d then f + 1 else if even f then f else f + 1)"

definition expo :: "real \<Rightarrow> int" where
  "expo x = \<lfloor>log 2 \<bar>x\<bar>\<rfloor>"

definition pow2 :: "int \<Rightarrow> real" where
  "pow2 k = 2 powr real_of_int k"

definition double :: "real \<Rightarrow> real" where
  "double x =
     (if x = 0 then 0
      else sgn x * (of_int (round_even (\<bar>x\<bar> / pow2 (expo x - 52))) * pow2 (expo x - 52)))"

text \<open>The operators \<open>+\<close>, \<open>-\<close>, \<open>*\<close> and \<open>/\<close> on numbers (no divisor below is zero).\<close>

definition dadd :: "real \<Rightarrow> real \<Rightarrow> real" where
  "dadd a b = double (a + b)"

definition dsub :: "real \<Rightarrow> real \<Rightarrow> real" where
  "dsub a b = double (a - b)"

definition dmul :: "real \<Rightarrow> real \<Rightarrow> real" where
  "dmul a b = double (a * b)"

definition ddiv :: "real \<Rightarrow> real \<Rightarrow> real" where
  "ddiv a b = double (a / b)"

text \<open>\<open>Math.round\<close>: the nearest integer, a tie going towards plus infinity.\<close>

definition Math_round :: "real \<Rightarrow> int" where
  "Math_round x = \<lfloor>x + 1 / 2\<rfloor>"

definition Math_max :: "real \<Rightarrow> real \<Rightarrow> real" where
  "Math_max a b = (if a < b then b else a)"

definition Math_min :: "real \<Rightarrow> real \<Rightarrow> real" where
  "Math_min a b = (if b < a then b else a)"

section \<open>Score functions (src/utils/smartSort.ts)\<close>

definition PRIORITY_WEIGHTS :: "priority \<Rightarrow> real" where
  "PRIORITY_WEIGHTS p = (case p of HIGH \<Rightarrow> 100 | MEDIUM \<Rightarrow> 50 | LOW \<Rightarrow> 10)"

definition URGENCY_MULTIPLIER :: real where
  "URGENCY_MULTIPLIER = 50"

definition MS_PER_HOUR :: real where
  "MS_PER_HOUR = dmul (dmul 1000 60) 60"

text \<open>The literal \<open>0.01\<close> is the double nearest to one hundredth.\<close>

definition computeScore :: "task \<Rightarrow> int \<Rightarrow> real" where
  "computeScore t now =
     (if status t = COMPLETED then 0
      else
        let priorityWeight = PRIORITY_WEIGHTS (priority t);
            msRemaining = dsub (of_int (deadline t)) (of_int now);
            hoursRemaining =
              (if msRemaining > 0 then ddiv msRemaining MS_PER_HOUR else double 0.01);
            urgencyWeight = dmul (ddiv 1 hoursRemaining) URGENCY_MULTIPLIER
        in dadd priorityWeight urgencyWeight)"

text \<open>The value that \<open>computeScore\<close> binds to its local \<open>hoursRemaining\<close>.\<close>

definition hoursRemaining :: "task \<Rightarrow> int \<Rightarrow> real" where
  "hoursRemaining t now =
     (if dsub (of_int (deadline t)) (of_int now) > 0
      then ddiv (dsub (of_int (deadline t)) (of_int now)) MS_PER_HOUR else double 0.01)"

text \<open>The three filters of \<open>computeConsistencyScore\<close>, in the order of the source.\<close>

definition isOnTime :: "task \<Rightarrow> bool" where
  "isOnTime t \<longleftrightarrow>
     status t = COMPLETED \<and> completedAt t \<noteq> None \<and> the (completedAt t) \<le> deadline t"

definition isLate :: "task \<Rightarrow> bool" where
  "isLate t \<longleftrightarrow>
     status t = COMPLETED \<and> (completedAt t = None \<or> the (completedAt t) > deadline t)"

definition isOverdue :: "int \<Rightarrow> task \<Rightarrow> bool" where
  "isOverdue now t \<longleftrightarrow> status t = PENDING \<and> deadline t < now"

definition computeConsistencyScore :: "task list \<Rightarrow> int \<Rightarrow> int" where
  "computeConsistencyScore ts now =
     (let onTime = length (filter isOnTime ts);
          late = length (filter isLate ts);
          overdue = length (filter (isOverdue now) ts);
          total = onTime + late + overdue
      in if total = 0 then 0
         else Math_round (dmul (ddiv (real onTime) (real total)) 100))"

definition computeTimeHealth :: "task \<Rightarrow> int \<Rightarrow> int" where
  "computeTimeHealth t now =
     (if status t = COMPLETED then
        (if completedAt t \<noteq> None \<and> the (completedAt t) \<le> deadline t then 100 else 0)
      else
        let total = dsub (of_int (deadline t)) (of_int (createdAt t))
        in if total \<le> 0 then 0
           else
             let remaining = dsub (of_int (deadline t)) (of_int now)
             in Math_round (Math_max 0 (Math_min 100 (dmul (ddiv remaining total) 100))))"

section \<open>Ranked view (src/utils/smartSort.ts, selectors)\<close>

text \<open>
  \<open>Array.prototype.sort\<close> belongs to the language, not to the repository.  ECMAScript
  requires it to be stable; it is modelled as the stable insertion sort driven by the
  comparator: an element goes before the first later element it does not compare
  greater than.
\<close>

fun insert_sorted :: "('a \<Rightarrow> 'a \<Rightarrow> real) \<Rightarrow> 'a \<Rightarrow> 'a list \<Rightarrow> 'a list" where
  "insert_sorted cmp x [] = [x]"
| "insert_sorted cmp x (y # ys) =
     (if cmp x y \<le> 0 then x # y # ys else y # insert_sorted cmp x ys)"

definition Array_sort :: "('a \<Rightarrow> 'a \<Rightarrow> real) \<Rightarrow> 'a list \<Rightarrow> 'a list" where
  "Array_sort cmp xs = foldr (insert_sorted cmp) xs []"

text \<open>The object literal \<open>{ ...task, score: computeScore(task, now) }\<close>.\<close>

definition withScore :: "int \<Rightarrow> task \<Rightarrow> scored_task" where
  "withScore now t = task.extend t (scored_task.fields (computeScore t now))"

text \<open>The comparator \<open>(a, b) => b.score - a.score\<close>.\<close>

definition byScoreDesc :: "scored_task \<Rightarrow> scored_task \<Rightarrow> real" where
  "byScoreDesc a b = dsub (score b) (score a)"

text \<open>
  The result function of \<open>selectSmartSortedTasks\<close>; \<open>now\<close> is the one value of
  \<open>Date.now()\<close> it reads before mapping.
\<close>

definition smartSortedTasks :: "int \<Rightarrow> task list \<Rightarrow> scored_task list" where
  "smartSortedTasks now ts = Array_sort byScoreDesc (map (withScore now) ts)"

text \<open>The result functions of \<open>selectPendingTasks\<close> and \<open>selectCompletedTasks\<close>.\<close>

definition pendingTasks :: "scored_task list \<Rightarrow> scored_task list" where
  "pendingTasks ranked = filter (\<lambda>t. status t = PENDING) ranked"

definition completedTasks :: "scored_task list \<Rightarrow> scored_task list" where
  "completedTasks ranked = filter (\<lambda>t. status t = COMPLETED) ranked"

subsection \<open>Memoisation\<close>

text \<open>
  An array of the store is an object: it has an identity (\<open>ref\<close>) besides its elements,
  and the memoised selector compares identities only.  \<open>RootState\<close> is modelled by the
  slice the selectors read.
\<close>

record tasks_array =
  ref :: nat
  elems :: "task list"

record tasks_state =
  tasks :: tasks_array
  loading :: bool
  error :: "string option"

record root_state =
  tasks_slice :: tasks_state

definition selectTasks :: "root_state \<Rightarrow> tasks_array" where
  "selectTasks state = tasks (tasks_slice state)"

text \<open>
  What a call of the selector can read besides its argument: the clock behind
  \<open>Date.now()\<close> and the selector's own cache (the inputs it holds a result for, newest
  first), with the count of recomputations.
\<close>

record runtime =
  clock :: int
  cache :: "(tasks_array \<times> scored_task list) list"
  recomputations :: nat

text \<open>
  Modelled from the spec: the memoisers of the reselect library, which is not among the
  sources.  Which earlier inputs a memoised selector keeps a result for differs between
  versions of the library: the last input only, or every earlier input.
\<close>

datatype memoiser = LastInput | EveryInput

text \<open>
  Modelled from the spec: the cache of a memoised selector.  Inputs are compared by
  reference: \<open>lookup\<close> finds the result held for the identity of \<open>input\<close>, and \<open>remember\<close>
  files a new result according to the memoiser.
\<close>

definition lookup :: "tasks_array \<Rightarrow> (tasks_array \<times> scored_task list) list
    \<Rightarrow> scored_task list option" where
  "lookup input entries = map_option snd (find (\<lambda>e. ref (fst e) = ref input) entries)"

fun remember :: "memoiser \<Rightarrow> tasks_array \<times> scored_task list
    \<Rightarrow> (tasks_array \<times> scored_task list) list \<Rightarrow> (tasks_array \<times> scored_task list) list" where
  "remember LastInput e es = [e]"
| "remember EveryInput e es = e # es"

text \<open>
  Modelled from the spec: \<open>createSelector\<close> is a function of the reselect library, which
  is not among the sources.  By the spec (4.2) and the comment in the source ("only
  recomputes when the tasks array changes") the selector returns the cached result,
  without recomputing, for a collection it holds a result for, and recomputes
  otherwise, with the memoiser \<open>m\<close> deciding what the cache keeps.  The result function
  is the only reader of the clock.
\<close>

definition createSelector ::
  "memoiser \<Rightarrow> (root_state \<Rightarrow> tasks_array) \<Rightarrow> (int \<Rightarrow> task list \<Rightarrow> scored_task list)
     \<Rightarrow> root_state \<Rightarrow> runtime \<Rightarrow> scored_task list \<times> runtime" where
  "createSelector m inputSelector resultFunc state w =
     (let input = inputSelector state
      in case lookup input (cache w) of
           Some res \<Rightarrow> (res, w)
         | None \<Rightarrow>
             let res = resultFunc (clock w) (elems input)
             in (res, w\<lparr>cache := remember m (input, res) (cache w),
                       recomputations := Suc (recomputations w)\<rparr>))"

definition selectSmartSortedTasks ::
  "memoiser \<Rightarrow> root_state \<Rightarrow> runtime \<Rightarrow> scored_task list \<times> runtime" where
  "selectSmartSortedTasks m = createSelector m selectTasks smartSortedTasks"

definition selectPendingTasks ::
  "memoiser \<Rightarrow> root_state \<Rightarrow> runtime \<Rightarrow> scored_task list \<times> runtime" where
  "selectPendingTasks m state w =
     (let (ranked, w') = selectSmartSortedTasks m state w in (pendingTasks ranked, w'))"

definition selectCompletedTasks ::
  "memoiser \<Rightarrow> root_state \<Rightarrow> runtime \<Rightarrow> scored_task list \<times> runtime" where
  "selectCompletedTasks m state w =
     (let (ranked, w') = selectSmartSortedTasks m state w in (completedTasks ranked, w'))"

text \<open>
  A cache is sound when each result it holds is the ranked list of the collection it is
  held for, at some reading of the clock.
\<close>

definition cacheSound :: "runtime \<Rightarrow> bool" where
  "cacheSound w \<longleftrightarrow>
     (\<forall>e \<in> set (cache w). \<exists>t. snd e = smartSortedTasks t (elems (fst e)))"

text \<open>
  Arrays of the store are not mutated in place: an array the cache holds under the
  identity of \<open>input\<close> has the elements of \<open>input\<close>.
\<close>

definition identityRespected :: "tasks_array \<Rightarrow> runtime \<Rightarrow> bool" where
  "identityRespected input w \<longleftrightarrow>
     (\<forall>e \<in> set (cache w). ref (fst e) = ref input \<longrightarrow> elems (fst e) = elems input)"

text \<open>The identities of the collections the cache holds a result for.\<close>

definition cachedRefs :: "runtime \<Rightarrow> nat set" where
  "cachedRefs w = (\<lambda>e. ref (fst e)) ` set (cache w)"

section \<open>Notification scheduler (services/NotificationService.ts)\<close>

datatype android_importance = IMPORTANCE_HIGH

datatype trigger_type = TIMESTAMP

record android_options =
  channelId :: string
  importance :: android_importance
  pressAction :: string
  smallIcon :: string

record notification =
  notification_id :: string
  notification_title :: string
  body :: string
  android :: android_options

record alarm_manager =
  allowWhileIdle :: bool

record timestamp_trigger =
  trigger_type :: trigger_type
  timestamp :: int
  alarmManager :: "alarm_manager option"

definition CHANNEL_ID :: string where
  "CHANNEL_ID = ''task-reminders''"

definition ONE_HOUR_MS :: int where
  "ONE_HOUR_MS = 60 * 60 * 1000"

definition REMINDER_SUFFIX :: string where
  "REMINDER_SUFFIX = ''-reminder''"

definition DEADLINE_SUFFIX :: string where
  "DEADLINE_SUFFIX = ''-deadline''"

subsection \<open>The delivery service\<close>

text \<open>
  Modelled from the spec: the notification-delivery service (the notifee library) is
  external.  Its interface is \<open>requestPermission\<close>, \<open>createTriggerNotification\<close> and
  \<open>cancelTriggerNotification\<close>; a trigger is stored under its id, a second one with the
  same id replaces the first, and cancelling an id that is absent changes nothing.
  A call may fail (the promise is rejected): \<open>rejects\<close> says which.  \<open>calls\<close> is the log of
  the requests the service received, in order.
\<close>

datatype service_call =
    RequestPermission
  | CreateTriggerNotification notification timestamp_trigger
  | CancelTriggerNotification string

datatype service_error = Rejected service_call

record delivery_service =
  authorizationStatus :: "int option"
  rejects :: "service_call \<Rightarrow> bool"
  pending :: "string \<rightharpoonup> notification \<times> timestamp_trigger"
  calls :: "service_call list"

definition requestPermission ::
  "delivery_service \<Rightarrow> (service_error + int option) \<times> delivery_service" where
  "requestPermission svc =
     (if rejects svc RequestPermission then Inl (Rejected RequestPermission)
      else Inr (authorizationStatus svc),
      svc\<lparr>calls := calls svc @ [RequestPermission]\<rparr>)"

definition createTriggerNotification ::
  "notification \<Rightarrow> timestamp_trigger \<Rightarrow> delivery_service
     \<Rightarrow> (service_error + string) \<times> delivery_service" where
  "createTriggerNotification n tr svc =
     (if rejects svc (CreateTriggerNotification n tr)
      then (Inl (Rejected (CreateTriggerNotification n tr)),
            svc\<lparr>calls := calls svc @ [CreateTriggerNotification n tr]\<rparr>)
      else (Inr (notification_id n),
            svc\<lparr>pending := (pending svc)(notification_id n \<mapsto> (n, tr)),
                calls := calls svc @ [CreateTriggerNotification n tr]\<rparr>))"

definition cancelTriggerNotification ::
  "string \<Rightarrow> delivery_service \<Rightarrow> (service_error + unit) \<times> delivery_service" where
  "cancelTriggerNotification i svc =
     (if rejects svc (CancelTriggerNotification i)
      then (Inl (Rejected (CancelTriggerNotification i)),
            svc\<lparr>calls := calls svc @ [CancelTriggerNotification i]\<rparr>)
      else (Inr (),
            svc\<lparr>pending := (pending svc)(i := None),
                calls := calls svc @ [CancelTriggerNotification i]\<rparr>))"

text \<open>
  \<open>await Promise.all(promises)\<close> on promises that have settled: the first rejection, or
  all the values.
\<close>

fun Promise_all :: "(service_error + 'a) list \<Rightarrow> service_error + 'a list" where
  "Promise_all [] = Inr []"
| "Promise_all (Inl e # ps) = Inl e"
| "Promise_all (Inr v # ps) = (case Promise_all ps of Inl e \<Rightarrow> Inl e | Inr vs \<Rightarrow> Inr (v # vs))"

subsection \<open>Scheduling and cancelling\<close>

text \<open>
  The two payloads and the two triggers of \<open>scheduleTaskNotifications\<close>.  The titles
  start with a pictograph, written here as its UTF-8 bytes.
\<close>

definition defaultAndroid :: android_options where
  "defaultAndroid =
     \<lparr>channelId = CHANNEL_ID, importance = IMPORTANCE_HIGH,
      pressAction = ''default'', smallIcon = ''ic_launcher''\<rparr>"

definition reminderNotification :: "task \<Rightarrow> notification" where
  "reminderNotification t =
     \<lparr>notification_id = task_id t @ REMINDER_SUFFIX,
      notification_title = [CHR 0xE2, CHR 0x8F, CHR 0xB0] @ '' Task Due Soon'',
      body = [CHR 0x22] @ title t @ [CHR 0x22] @ '' is due in 1 hour'',
      android = defaultAndroid\<rparr>"

definition reminderTrigger :: "task \<Rightarrow> timestamp_trigger" where
  "reminderTrigger t =
     \<lparr>trigger_type = TIMESTAMP, timestamp = deadline t - ONE_HOUR_MS, alarmManager = None\<rparr>"

definition deadlineNotification :: "task \<Rightarrow> notification" where
  "deadlineNotification t =
     \<lparr>notification_id = task_id t @ DEADLINE_SUFFIX,
      notification_title = [CHR 0xF0, CHR 0x9F, CHR 0x94, CHR 0x94] @ '' Task Deadline Reached'',
      body = [CHR 0x22] @ title t @ [CHR 0x22] @ '' is due right now!'',
      android = defaultAndroid\<rparr>"

definition deadlineTrigger :: "task \<Rightarrow> timestamp_trigger" where
  "deadlineTrigger t =
     \<lparr>trigger_type = TIMESTAMP, timestamp = deadline t,
      alarmManager = Some \<lparr>allowWhileIdle = True\<rparr>\<rparr>"

text \<open>
  \<open>scheduleTaskNotifications\<close>; \<open>now\<close> is the value of \<open>Date.now()\<close> read after the
  permission request has settled.  The result is \<open>Inl\<close> when the returned promise is
  rejected.
\<close>

definition scheduleTaskNotifications ::
  "task \<Rightarrow> int \<Rightarrow> delivery_service \<Rightarrow> (service_error + unit) \<times> delivery_service" where
  "scheduleTaskNotifications t now svc =
     (case requestPermission svc of
        (Inl e, svc1) \<Rightarrow> (Inl e, svc1)
      | (Inr settings, svc1) \<Rightarrow>
          if settings = None \<or> the settings < 1 then (Inr (), svc1)
          else
            let reminderTime = deadline t - ONE_HOUR_MS;
                deadlineTime = deadline t;
                (promises1, svc2) =
                  (if reminderTime > now
                   then (let (p, s) = createTriggerNotification
                                        (reminderNotification t) (reminderTrigger t) svc1
                         in ([p], s))
                   else ([], svc1));
                (promises2, svc3) =
                  (if deadlineTime > now
                   then (let (p, s) = createTriggerNotification
                                        (deadlineNotification t) (deadlineTrigger t) svc2
                         in (promises1 @ [p], s))
                   else (promises1, svc2))
            in (case Promise_all promises2 of Inl e \<Rightarrow> Inl e | Inr ids \<Rightarrow> Inr (), svc3))"

definition cancelTaskNotifications ::
  "string \<Rightarrow> delivery_service \<Rightarrow> (service_error + unit) \<times> delivery_service" where
  "cancelTaskNotifications taskId svc =
     (let (p1, svc1) = cancelTriggerNotification (taskId @ REMINDER_SUFFIX) svc;
          (p2, svc2) = cancelTriggerNotification (taskId @ DEADLINE_SUFFIX) svc1
      in (case Promise_all [p1, p2] of Inl e \<Rightarrow> Inl e | Inr us \<Rightarrow> Inr (), svc2))"

text \<open>Permission is granted: the request settled with a status of at least 1.\<close>

definition granted :: "delivery_service \<Rightarrow> bool" where
  "granted svc \<longleftrightarrow>
     \<not> rejects svc RequestPermission
     \<and> (case authorizationStatus svc of None \<Rightarrow> False | Some s \<Rightarrow> 1 \<le> s)"

text \<open>A task record for the concrete instances below.\<close>

definition exampleTask ::
  "string \<Rightarrow> priority \<Rightarrow> int \<Rightarrow> task_status \<Rightarrow> int option \<Rightarrow> task" where
  "exampleTask i p d s c =
     \<lparr>task_id = i, title = i, description = [], priority = p, deadline = d, status = s,
      createdAt = 0, tags = [], subtasks = [], completedAt = c\<rparr>"

text \<open>A store whose task array, with identity 1, holds one HIGH task due at 3600000.\<close>

definition exampleState :: root_state where
  "exampleState =
     \<lparr>tasks_slice =
        \<lparr>tasks = \<lparr>ref = 1, elems = [exampleTask ''A'' HIGH 3600000 PENDING None]\<rparr>,
         loading = False, error = None\<rparr>\<rparr>"

text \<open>
  A delivery service that rejects no call and holds no trigger; \<open>auth\<close> is what its
  permission request settles with.
\<close>

definition exampleService :: "int option \<Rightarrow> delivery_service" where
  "exampleService auth =
     \<lparr>authorizationStatus = auth, rejects = (\<lambda>c. False), pending = Map.empty, calls = []\<rparr>"

text \<open>
  A history of \<open>n\<close> tasks completed by their deadline and \<open>k\<close> tasks completed after it,
  with the ids a, aa, aaa, ... and b, bb, bbb, ...
\<close>

definition exampleHistory :: "nat \<Rightarrow> nat \<Rightarrow> task list" where
  "exampleHistory n k =
     map (\<lambda>i. exampleTask (replicate (Suc i) CHR ''a'') LOW 10 COMPLETED (Some 10)) [0..<n]
     @ map (\<lambda>i. exampleTask (replicate (Suc i) CHR ''b'') LOW 10 COMPLETED (Some 11)) [0..<k]"

section \<open>Properties of the rounding to doubles\<close>

lemma pow2_pos: "0 < pow2 k"
  by (simp add: pow2_def)

lemma pow2_add: "pow2 (a + b) = pow2 a * pow2 b"
  by (simp add: pow2_def powr_add)

lemma pow2_mono: "a \<le> b \<Longrightarrow> pow2 a \<le> pow2 b"
  by (simp add: pow2_def)

lemma pow2_nat: "pow2 (int n) = 2 ^ n"
  by (simp add: pow2_def powr_realpow)

lemma pow2_neg_nat: "pow2 (- int n) = 1 / 2 ^ n"
  by (simp add: pow2_def powr_minus powr_realpow divide_inverse)

lemma pow2_zero: "pow2 0 = 1"
  by (simp add: pow2_def)

lemma pow2_le_iff: "pow2 a \<le> pow2 b \<longleftrightarrow> a \<le> b"
  by (simp add: pow2_def)

lemma pow2_less_iff: "pow2 a < pow2 b \<longleftrightarrow> a < b"
  by (simp add: pow2_def)

lemma pow2_split52: "pow2 e = pow2 (e - 52) * 2 ^ 52"
proof -
  have "e = (e - 52) + int 52" by simp
  then have "pow2 e = pow2 ((e - 52) + int 52)" by (rule arg_cong)
  also have "\<dots> = pow2 (e - 52) * 2 ^ 52" by (simp only: pow2_add pow2_nat)
  finally show ?thesis .
qed

lemma pow2_split53: "pow2 (e + 1) = pow2 (e - 52) * 2 ^ 53"
proof -
  have "e + 1 = (e - 52) + int 53" by simp
  then have "pow2 (e + 1) = pow2 ((e - 52) + int 53)" by (rule arg_cong)
  also have "\<dots> = pow2 (e - 52) * 2 ^ 53" by (simp only: pow2_add pow2_nat)
  finally show ?thesis .
qed

subsection \<open>Rounding to an integer\<close>

lemma round_even_cases: "round_even y = \<lfloor>y\<rfloor> \<or> round_even y = \<lfloor>y\<rfloor> + 1"
  by (simp add: round_even_def Let_def)

lemma round_even_of_int: "round_even (of_int n) = n"
  by (simp add: round_even_def Let_def)

lemma round_even_mono:
  assumes "x \<le> y"
  shows "round_even x \<le> round_even y"
proof (cases "\<lfloor>x\<rfloor> = \<lfloor>y\<rfloor>")
  case True
  with assms show ?thesis
    by (auto simp: round_even_def Let_def)
next
  case False
  with assms have "\<lfloor>x\<rfloor> < \<lfloor>y\<rfloor>"
    using floor_mono [of x y] by linarith
  moreover have "round_even x \<le> \<lfloor>x\<rfloor> + 1" "\<lfloor>y\<rfloor> \<le> round_even y"
    using round_even_cases [of x] round_even_cases [of y] by auto
  ultimately show ?thesis by linarith
qed

subsection \<open>The exponent\<close>

lemma expo_bounds:
  assumes "x \<noteq> 0"
  shows "pow2 (expo x) \<le> \<bar>x\<bar> \<and> \<bar>x\<bar> < pow2 (expo x + 1)"
proof -
  have "0 < \<bar>x\<bar>" using assms by simp
  from floor_log_eq_powr_iff [OF this, of 2 "expo x"]
  show ?thesis by (simp add: expo_def pow2_def)
qed

lemma expo_eq:
  assumes "0 < x" "pow2 e \<le> x" "x < pow2 (e + 1)"
  shows "expo x = e"
proof -
  from floor_log_eq_powr_iff [OF assms(1), of 2 e] assms
  show ?thesis by (simp add: expo_def pow2_def)
qed

lemma expo_mono:
  assumes "0 < x" "x \<le> y"
  shows "expo x \<le> expo y"
  unfolding expo_def using assms by (intro floor_mono log_mono) simp_all

lemma mantissa_bounds:
  assumes "0 < x"
  shows "2 ^ 52 \<le> x / pow2 (expo x - 52)" "x / pow2 (expo x - 52) < 2 ^ 53"
proof -
  have b: "pow2 (expo x) \<le> x" "x < pow2 (expo x + 1)"
    using expo_bounds [of x] assms by simp_all
  have s: "pow2 (expo x) = pow2 (expo x - 52) * 2 ^ 52"
    by (rule pow2_split52)
  have s1: "pow2 (expo x + 1) = pow2 (expo x - 52) * 2 ^ 53"
    by (rule pow2_split53)
  show "2 ^ 52 \<le> x / pow2 (expo x - 52)"
    using b(1) s pow2_pos [of "expo x - 52"] by (simp add: pos_le_divide_eq mult.commute)
  show "x / pow2 (expo x - 52) < 2 ^ 53"
    using b(2) s1 pow2_pos [of "expo x - 52"] by (simp add: pos_divide_less_eq mult.commute)
qed

subsection \<open>Sign, bounds and monotonicity\<close>

lemma double_pos_eq:
  "0 < x \<Longrightarrow>
     double x = of_int (round_even (x / pow2 (expo x - 52))) * pow2 (expo x - 52)"
  by (simp add: double_def)

lemma double_zero: "double 0 = 0"
  by (simp add: double_def)

lemma double_minus: "double (- x) = - double x"
  by (simp add: double_def expo_def sgn_minus)

lemma double_bounds:
  assumes "0 < x"
  shows "pow2 (expo x) \<le> double x" "double x \<le> pow2 (expo x + 1)"
proof -
  let ?q = "pow2 (expo x - 52)"
  let ?m = "x / ?q"
  have "round_even (of_int (2 ^ 52)) \<le> round_even ?m"
    using mantissa_bounds(1) [OF assms] by (intro round_even_mono) simp
  then have lo: "(2 ^ 52 :: int) \<le> round_even ?m"
    by (simp only: round_even_of_int)
  have "round_even ?m \<le> round_even (of_int (2 ^ 53))"
    using mantissa_bounds(2) [OF assms] by (intro round_even_mono) simp
  then have hi: "round_even ?m \<le> (2 ^ 53 :: int)"
    by (simp only: round_even_of_int)
  have s: "pow2 (expo x) = 2 ^ 52 * ?q"
    using pow2_split52 [of "expo x"] by (simp add: mult.commute)
  have s1: "pow2 (expo x + 1) = 2 ^ 53 * ?q"
    using pow2_split53 [of "expo x"] by (simp add: mult.commute)
  have "real_of_int (2 ^ 52) * ?q \<le> real_of_int (round_even ?m) * ?q"
    using lo pow2_pos [of "expo x - 52"] by (intro mult_right_mono) simp_all
  then show "pow2 (expo x) \<le> double x"
    using assms by (simp add: double_pos_eq s)
  have "real_of_int (round_even ?m) * ?q \<le> real_of_int (2 ^ 53) * ?q"
    using hi pow2_pos [of "expo x - 52"] by (intro mult_right_mono) simp_all
  then show "double x \<le> pow2 (expo x + 1)"
    using assms by (simp add: double_pos_eq s1)
qed

lemma double_pos: "0 < x \<Longrightarrow> 0 < double x"
  using double_bounds(1) [of x] pow2_pos [of "expo x"] by linarith

lemma double_mono_pos:
  assumes "0 < x" "x \<le> y"
  shows "double x \<le> double y"
proof (cases "expo x = expo y")
  case True
  let ?q = "pow2 (expo y - 52)"
  have "x / ?q \<le> y / ?q"
    using assms pow2_pos [of "expo y - 52"] by (simp add: divide_right_mono)
  then have "round_even (x / ?q) \<le> round_even (y / ?q)"
    by (rule round_even_mono)
  then have "real_of_int (round_even (x / ?q)) * ?q \<le> real_of_int (round_even (y / ?q)) * ?q"
    using pow2_pos [of "expo y - 52"] by (intro mult_right_mono) simp_all
  then show ?thesis
    using assms True by (simp add: double_pos_eq)
next
  case False
  then have "expo x + 1 \<le> expo y"
    using expo_mono [OF assms] by linarith
  then have "pow2 (expo x + 1) \<le> pow2 (expo y)"
    by (rule pow2_mono)
  moreover have "double x \<le> pow2 (expo x + 1)"
    using assms by (intro double_bounds) simp
  moreover have "pow2 (expo y) \<le> double y"
    using assms by (intro double_bounds) simp
  ultimately show ?thesis by linarith
qed

lemma double_mono:
  assumes "x \<le> y"
  shows "double x \<le> double y"
proof -
  consider "0 < x" | "x \<le> 0" "0 \<le> y" | "y < 0" by linarith
  then show ?thesis
  proof cases
    case 1
    then show ?thesis using assms by (rule double_mono_pos)
  next
    case 2
    have "double x \<le> 0"
    proof (cases "x = 0")
      case True then show ?thesis by (simp add: double_zero)
    next
      case False
      then have "0 < - x" using 2 by simp
      then have "0 < double (- x)" by (rule double_pos)
      then show ?thesis by (simp add: double_minus)
    qed
    moreover have "0 \<le> double y"
    proof (cases "y = 0")
      case True then show ?thesis by (simp add: double_zero)
    next
      case False
      then have "0 < y" using 2 by simp
      then have "0 < double y" by (rule double_pos)
      then show ?thesis by simp
    qed
    ultimately show ?thesis by linarith
  next
    case 3
    then have "0 < - y" "- y \<le> - x" using assms by simp_all
    then have "double (- y) \<le> double (- x)" by (rule double_mono_pos)
    then show ?thesis by (simp add: double_minus)
  qed
qed

subsection \<open>Exact values and evaluation\<close>

lemma double_exact:
  assumes "0 < x" "x / pow2 (expo x - 52) = of_int n"
  shows "double x = x"
proof -
  have "double x = of_int n * pow2 (expo x - 52)"
    using assms by (simp add: double_pos_eq round_even_of_int)
  also have "\<dots> = x"
    using assms(2) pow2_pos [of "expo x - 52"] by (simp add: field_simps)
  finally show ?thesis .
qed

lemma double_eval:
  assumes "0 < x" "pow2 e \<le> x" "x < pow2 (e + 1)"
  shows "double x = of_int (round_even (x / pow2 (e - 52))) * pow2 (e - 52)"
  using assms by (simp add: double_pos_eq expo_eq [OF assms])

lemma double_eval_up:
  assumes "0 < x" "2 ^ 52 \<le> x * 2 ^ k" "x * 2 ^ k < 2 ^ 53"
  shows "double x = of_int (round_even (x * 2 ^ k)) / 2 ^ k"
proof -
  let ?e = "52 - int k"
  have e52: "?e - 52 = - int k" by simp
  have q: "pow2 (?e - 52) = 1 / 2 ^ k"
    by (simp only: e52 pow2_neg_nat)
  have "pow2 ?e = pow2 (?e - 52) * 2 ^ 52" by (rule pow2_split52)
  then have "pow2 ?e = 1 / 2 ^ k * 2 ^ 52" by (simp only: q)
  then have lo: "pow2 ?e = 2 ^ 52 / 2 ^ k" by simp
  have "pow2 (?e + 1) = pow2 (?e - 52) * 2 ^ 53" by (rule pow2_split53)
  then have "pow2 (?e + 1) = 1 / 2 ^ k * 2 ^ 53" by (simp only: q)
  then have hi: "pow2 (?e + 1) = 2 ^ 53 / 2 ^ k" by simp
  have 1: "pow2 ?e \<le> x"
    using assms(2) by (simp only: lo) (simp add: pos_divide_le_eq)
  have 2: "x < pow2 (?e + 1)"
    using assms(3) by (simp only: hi) (simp add: pos_less_divide_eq)
  have "double x = of_int (round_even (x / pow2 (?e - 52))) * pow2 (?e - 52)"
    by (rule double_eval [OF assms(1) 1 2])
  then have "double x = of_int (round_even (x / (1 / 2 ^ k))) * (1 / 2 ^ k)"
    by (simp only: q)
  then show ?thesis by simp
qed

lemma double_eval_down:
  assumes "0 < x" "2 ^ 52 \<le> x / 2 ^ k" "x / 2 ^ k < 2 ^ 53"
  shows "double x = of_int (round_even (x / 2 ^ k)) * 2 ^ k"
proof -
  let ?e = "52 + int k"
  have e52: "?e - 52 = int k" by simp
  have q: "pow2 (?e - 52) = 2 ^ k"
    by (simp only: e52 pow2_nat)
  have "pow2 ?e = pow2 (?e - 52) * 2 ^ 52" by (rule pow2_split52)
  then have "pow2 ?e = 2 ^ k * 2 ^ 52" by (simp only: q)
  then have lo: "pow2 ?e = 2 ^ 52 * 2 ^ k" by simp
  have "pow2 (?e + 1) = pow2 (?e - 52) * 2 ^ 53" by (rule pow2_split53)
  then have "pow2 (?e + 1) = 2 ^ k * 2 ^ 53" by (simp only: q)
  then have hi: "pow2 (?e + 1) = 2 ^ 53 * 2 ^ k" by simp
  have 1: "pow2 ?e \<le> x"
    using assms(2) by (simp only: lo) (simp add: pos_le_divide_eq)
  have 2: "x < pow2 (?e + 1)"
    using assms(3) by (simp only: hi) (simp add: pos_divide_less_eq)
  have "double x = of_int (round_even (x / pow2 (?e - 52))) * pow2 (?e - 52)"
    by (rule double_eval [OF assms(1) 1 2])
  then show ?thesis by (simp only: q)
qed

text \<open>Integers up to \<open>2 ^ 53\<close> in absolute value are doubles.\<close>

lemma double_of_int_pos:
  assumes "1 \<le> n" "n \<le> 2 ^ 53"
  shows "double (of_int n) = of_int n"
proof -
  let ?x = "real_of_int n"
  let ?e = "expo ?x"
  have pos: "0 < ?x" using assms by simp
  have b: "pow2 ?e \<le> ?x" "?x < pow2 (?e + 1)"
    using expo_bounds [of ?x] pos by simp_all
  have "pow2 0 \<le> ?x" using assms by (simp add: pow2_zero)
  with b(2) have "pow2 0 < pow2 (?e + 1)" by linarith
  then have e0: "0 \<le> ?e" by (simp add: pow2_less_iff)
  have "?x \<le> pow2 (int 53)"
    using assms(2) by (simp only: pow2_nat) (metis of_int_le_iff of_int_numeral of_int_power)
  with b(1) have "pow2 ?e \<le> pow2 (int 53)" by linarith
  then have e53: "?e \<le> 53" by (simp add: pow2_le_iff)
  show ?thesis
  proof (cases "?e \<le> 52")
    case True
    define k where "k = nat (52 - ?e)"
    have "?e - 52 = - int k" using True by (simp add: k_def)
    then have "pow2 (?e - 52) = 1 / 2 ^ k" by (simp only: pow2_neg_nat)
    then have "?x / pow2 (?e - 52) = of_int (n * 2 ^ k)" by simp
    with pos show ?thesis by (rule double_exact)
  next
    case False
    with e53 have e: "?e = 53" by simp
    then have "pow2 (int 53) \<le> ?x" using b(1) by simp
    then have "(2 ^ 53 :: real) \<le> ?x" by (simp only: pow2_nat)
    then have "(2 ^ 53 :: int) \<le> n"
      by (metis of_int_le_iff of_int_numeral of_int_power)
    with assms(2) have n: "n = 2 ^ 53" by simp
    have "?e - 52 = int 1" using e by simp
    then have "pow2 (?e - 52) = 2 ^ 1" by (simp only: pow2_nat)
    then have "?x / pow2 (?e - 52) = of_int (2 ^ 52)" by (simp add: n)
    with pos show ?thesis by (rule double_exact)
  qed
qed

lemma double_of_int:
  assumes "\<bar>n\<bar> \<le> 2 ^ 53"
  shows "double (of_int n) = of_int n"
proof -
  consider "n = 0" | "1 \<le> n" | "1 \<le> - n" by linarith
  then show ?thesis
  proof cases
    case 1
    then show ?thesis by (simp add: double_zero)
  next
    case 2
    with assms show ?thesis by (intro double_of_int_pos) simp_all
  next
    case 3
    with assms have "double (of_int (- n)) = of_int (- n)"
      by (intro double_of_int_pos) simp_all
    then show ?thesis by (simp add: double_minus)
  qed
qed

lemma double_numeral:
  "(numeral w :: int) \<le> 9007199254740992 \<Longrightarrow> double (numeral w) = numeral w"
  using double_of_int [of "numeral w"] by simp

lemma double_neg_numeral:
  "(numeral w :: int) \<le> 9007199254740992 \<Longrightarrow> double (- numeral w) = - numeral w"
  using double_of_int [of "- numeral w"] by simp

lemma double_one: "double 1 = 1"
  using double_of_int [of 1] by simp


lemma double_pos_iff: "0 < double x \<longleftrightarrow> 0 < x"
proof
  assume "0 < double x"
  show "0 < x"
  proof (rule ccontr)
    assume "\<not> 0 < x"
    then have "x \<le> 0" by simp
    then have "double x \<le> double 0" by (rule double_mono)
    with \<open>0 < double x\<close> show False by (simp add: double_zero)
  qed
next
  assume "0 < x"
  then show "0 < double x" by (rule double_pos)
qed

lemma double_nonpos_iff: "double x \<le> 0 \<longleftrightarrow> x \<le> 0"
  using double_pos_iff [of x] by linarith

lemma double_nonneg: "0 \<le> x \<Longrightarrow> 0 \<le> double x"
  using double_mono [of 0 x] by (simp add: double_zero)


lemma MS_PER_HOUR_eq: "MS_PER_HOUR = 3600000"
  by (simp add: MS_PER_HOUR_def dmul_def double_numeral)

text \<open>The doubles that the examples below pass through.\<close>

lemma double_hundredth: "double (1 / 100) = 5764607523034235 / 2 ^ 59"
  by (subst double_eval_up [where k = 59]) (simp_all add: round_even_def Let_def)

lemma double_inverse_hundredth: "double (1 / (5764607523034235 / 2 ^ 59)) = 100"
  by (subst double_eval_up [where k = 46]) (simp_all add: round_even_def Let_def)

lemma double_third: "double (1 / 3) = 6004799503160661 / 2 ^ 54"
  by (subst double_eval_up [where k = 54]) (simp_all add: round_even_def Let_def)

lemma double_fifty_thirds: "double (6004799503160661 / 2 ^ 54 * 50) = 2345624805922133 / 2 ^ 47"
  by (subst double_eval_up [where k = 48]) (simp_all add: round_even_def Let_def)

lemma double_score_three_hours:
  "double (100 + 2345624805922133 / 2 ^ 47) = 4104843410363733 / 2 ^ 45"
  by (subst double_eval_up [where k = 46]) (simp_all add: round_even_def Let_def)

lemma double_23_40: "double (23 / 40) = 2589569785738035 / 2 ^ 52"
  by (subst double_eval_up [where k = 53]) (simp_all add: round_even_def Let_def)

lemma double_23_40_percent:
  "double (2589569785738035 / 2 ^ 52 * 100) = 8092405580431359 / 2 ^ 47"
  by (subst double_eval_up [where k = 47]) (simp_all add: round_even_def Let_def)

lemma double_half: "double (1 / 2) = 1 / 2"
  by (subst double_eval_up [where k = 53]) (simp_all add: round_even_def Let_def)

lemma double_three_quarters: "double (3 / 4) = 3 / 4"
  by (subst double_eval_up [where k = 53]) (simp_all add: round_even_def Let_def)


section \<open>Properties of the score functions\<close>

lemma msRemaining_eq: "dsub (of_int d) (of_int n) = double (of_int (d - n))"
  by (simp add: dsub_def)

lemma msRemaining_pos_iff: "0 < dsub (of_int d) (of_int n) \<longleftrightarrow> 0 < d - n"
  by (simp add: msRemaining_eq double_pos_iff)

text \<open>At the floor: \<open>(1 / 0.01) * 50\<close> is 5000 in doubles too.\<close>

lemma floor_urgency: "dmul (ddiv 1 (double (1 / 100))) URGENCY_MULTIPLIER = 5000"
proof -
  have b: "ddiv 1 (5764607523034235 / 2 ^ 59) = 100"
    unfolding ddiv_def by (rule double_inverse_hundredth)
  have c: "dmul 100 50 = 5000"
    by (simp add: dmul_def double_numeral)
  show ?thesis
    by (simp only: double_hundredth b c URGENCY_MULTIPLIER_def)
qed

lemma computeScore_overdue:
  assumes "status t \<noteq> COMPLETED" "deadline t - now \<le> 0"
  shows "computeScore t now = PRIORITY_WEIGHTS (priority t) + 5000"
proof -
  have "\<not> 0 < dsub (of_int (deadline t)) (of_int now)"
    using assms(2) by (simp add: msRemaining_pos_iff)
  then have "computeScore t now = dadd (PRIORITY_WEIGHTS (priority t)) 5000"
    using assms(1) by (simp add: computeScore_def Let_def floor_urgency)
  also have "\<dots> = PRIORITY_WEIGHTS (priority t) + 5000"
    by (cases "priority t") (simp_all add: PRIORITY_WEIGHTS_def dadd_def double_numeral)
  finally show ?thesis .
qed

lemma computeScore_future:
  assumes "status t \<noteq> COMPLETED" "0 < deadline t - now"
  shows "computeScore t now
     = dadd (PRIORITY_WEIGHTS (priority t))
         (dmul (ddiv 1 (ddiv (double (of_int (deadline t - now))) 3600000)) 50)"
proof -
  have "0 < dsub (of_int (deadline t)) (of_int now)"
    using assms(2) by (simp add: msRemaining_pos_iff)
  then show ?thesis
    using assms(1)
    by (simp add: computeScore_def Let_def MS_PER_HOUR_eq URGENCY_MULTIPLIER_def msRemaining_eq)
qed

lemma ddiv_pos_iff: "0 < c \<Longrightarrow> 0 < ddiv x c \<longleftrightarrow> 0 < x"
  by (simp add: ddiv_def double_pos_iff zero_less_divide_iff)

text \<open>The scores of the two tasks of the example.\<close>

lemma score_low_overdue:
  "computeScore (a\<lparr>status := PENDING, priority := LOW, deadline := now - 3600000\<rparr>) now = 5010"
  by (simp add: computeScore_overdue PRIORITY_WEIGHTS_def)

lemma score_high_three_hours:
  "computeScore (b\<lparr>status := PENDING, priority := HIGH, deadline := now + 3 * 3600000\<rparr>) now
     = 4104843410363733 / 2 ^ 45"
proof -
  have h: "ddiv (double (real_of_int 10800000)) 3600000 = 3"
    by (simp add: ddiv_def double_numeral)
  have r: "ddiv 1 3 = 6004799503160661 / 2 ^ 54"
    unfolding ddiv_def by (rule double_third)
  have u: "dmul (6004799503160661 / 2 ^ 54) 50 = 2345624805922133 / 2 ^ 47"
    unfolding dmul_def by (rule double_fifty_thirds)
  have s: "dadd 100 (2345624805922133 / 2 ^ 47) = 4104843410363733 / 2 ^ 45"
    unfolding dadd_def by (rule double_score_three_hours)
  let ?t = "b\<lparr>status := PENDING, priority := HIGH, deadline := now + 3 * 3600000\<rparr>"
  have "computeScore ?t now
     = dadd (PRIORITY_WEIGHTS (priority ?t))
         (dmul (ddiv 1 (ddiv (double (of_int (deadline ?t - now))) 3600000)) 50)"
    by (rule computeScore_future) simp_all
  also have "deadline ?t - now = 10800000" by simp
  also have "PRIORITY_WEIGHTS (priority ?t) = 100" by (simp add: PRIORITY_WEIGHTS_def)
  finally show ?thesis
    by (simp only: h r u s)
qed

text \<open>
  C1.  A completed task scores 0; any other task scores its priority weight
  (HIGH 100, MEDIUM 50, LOW 10) plus \<open>(1 / hoursRemaining) * 50\<close>, where hoursRemaining is
  \<open>(deadline - now) / 3600000\<close> when that is positive and the floor 0.01 otherwise, all in
  the arithmetic of doubles.  A LOW task one hour past its deadline scores 5010, which
  is more than the score of a HIGH task due in three hours: the double
  116.66666666666666, within \<open>10 ^ -13\<close> of 350/3.
\<close>

theorem computeScore_formula:
  "computeScore t now =
     (if status t = COMPLETED then 0
      else dadd (case priority t of HIGH \<Rightarrow> 100 | MEDIUM \<Rightarrow> 50 | LOW \<Rightarrow> 10)
             (dmul (ddiv 1 (if 0 < ddiv (dsub (of_int (deadline t)) (of_int now)) 3600000
                            then ddiv (dsub (of_int (deadline t)) (of_int now)) 3600000
                            else double 0.01)) 50))
   \<and> computeScore (a\<lparr>status := PENDING, priority := LOW, deadline := now - 3600000\<rparr>) now = 5010
   \<and> computeScore (b\<lparr>status := PENDING, priority := HIGH, deadline := now + 3 * 3600000\<rparr>) now
       = 4104843410363733 / 2 ^ 45
   \<and> \<bar>4104843410363733 / 2 ^ 45 - 350 / (3::real)\<bar> < 1 / 10 ^ 13
   \<and> computeScore (b\<lparr>status := PENDING, priority := HIGH, deadline := now + 3 * 3600000\<rparr>) now
       < computeScore (a\<lparr>status := PENDING, priority := LOW, deadline := now - 3600000\<rparr>) now"
proof (intro conjI)
  show "computeScore t now =
     (if status t = COMPLETED then 0
      else dadd (case priority t of HIGH \<Rightarrow> 100 | MEDIUM \<Rightarrow> 50 | LOW \<Rightarrow> 10)
             (dmul (ddiv 1 (if 0 < ddiv (dsub (of_int (deadline t)) (of_int now)) 3600000
                            then ddiv (dsub (of_int (deadline t)) (of_int now)) 3600000
                            else double 0.01)) 50))"
    by (simp add: computeScore_def Let_def PRIORITY_WEIGHTS_def MS_PER_HOUR_eq
        URGENCY_MULTIPLIER_def ddiv_pos_iff)
  show "computeScore (a\<lparr>status := PENDING, priority := LOW, deadline := now - 3600000\<rparr>) now
       = 5010"
    by (rule score_low_overdue)
  show "computeScore (b\<lparr>status := PENDING, priority := HIGH, deadline := now + 3 * 3600000\<rparr>)
       now = 4104843410363733 / 2 ^ 45"
    by (rule score_high_three_hours)
  show "\<bar>4104843410363733 / 2 ^ 45 - 350 / (3::real)\<bar> < 1 / 10 ^ 13"
    by simp
  show "computeScore (b\<lparr>status := PENDING, priority := HIGH, deadline := now + 3 * 3600000\<rparr>)
       now
       < computeScore (a\<lparr>status := PENDING, priority := LOW, deadline := now - 3600000\<rparr>) now"
    by (simp only: score_low_overdue score_high_three_hours) simp
qed

text \<open>Doubling is exact.\<close>

lemma double_twice:
  assumes "0 < x"
  shows "double (2 * x) = 2 * double x"
proof -
  define e where "e = expo x"
  have b: "pow2 e \<le> x" "x < pow2 (e + 1)"
    using expo_bounds [of x] assms by (simp_all add: e_def)
  have s: "pow2 (k + 1) = 2 * pow2 k" for k
    using pow2_add [of k 1] pow2_nat [of 1] by simp
  have q: "pow2 (e + 1 - 52) = 2 * pow2 (e - 52)"
  proof -
    have "e + 1 - 52 = (e - 52) + 1" by simp
    then show ?thesis by (simp only: s)
  qed
  have s1: "pow2 (e + 1) = 2 * pow2 e" by (rule s)
  have s2: "pow2 (e + 1 + 1) = 2 * (2 * pow2 e)" by (simp only: s)
  have "pow2 (e + 1) \<le> 2 * x" "2 * x < pow2 (e + 1 + 1)"
    unfolding s2 using b unfolding s1 by linarith+
  moreover have "0 < 2 * x" using assms by simp
  ultimately have "double (2 * x)
      = of_int (round_even (2 * x / pow2 (e + 1 - 52))) * pow2 (e + 1 - 52)"
    by (intro double_eval) simp_all
  also have "2 * x / pow2 (e + 1 - 52) = x / pow2 (e - 52)"
    unfolding q by simp
  also have "of_int (round_even (x / pow2 (e - 52))) * pow2 (e + 1 - 52)
             = 2 * (of_int (round_even (x / pow2 (e - 52))) * pow2 (e - 52))"
    unfolding q by simp
  finally show ?thesis
    using assms by (simp only: double_pos_eq e_def)
qed

subsection \<open>The relative error of a rounding\<close>





subsection \<open>Order of the scores\<close>


















lemma computeScore_one_hour:
  assumes "status t \<noteq> COMPLETED" "deadline t - now = 3600000"
  shows "computeScore t now = PRIORITY_WEIGHTS (priority t) + 50"
proof -
  have h: "ddiv (double (real_of_int 3600000)) 3600000 = 1"
    by (simp add: ddiv_def double_numeral double_one)
  have r: "ddiv 1 1 = 1"
    by (simp add: ddiv_def double_one)
  have u: "dmul 1 50 = 50"
    by (simp add: dmul_def double_numeral)
  have s: "dadd (PRIORITY_WEIGHTS (priority t)) 50 = PRIORITY_WEIGHTS (priority t) + 50"
    by (cases "priority t") (simp_all add: PRIORITY_WEIGHTS_def dadd_def double_numeral)
  have "computeScore t now
     = dadd (PRIORITY_WEIGHTS (priority t))
         (dmul (ddiv 1 (ddiv (double (of_int (deadline t - now))) 3600000)) 50)"
    using assms by (intro computeScore_future) simp_all
  then show ?thesis
    by (simp only: assms(2) h r u s)
qed


lemma computeScore_half_hour:
  assumes "status t \<noteq> COMPLETED" "deadline t - now = 1800000"
  shows "computeScore t now = PRIORITY_WEIGHTS (priority t) + 100"
proof -
  have "double (1800000 / 3600000) = double (1 / 2)" by simp
  then have h: "ddiv (double (real_of_int 1800000)) 3600000 = 1 / 2"
    by (simp add: ddiv_def double_numeral double_half)
  have r: "ddiv 1 (1 / 2) = 2"
    by (simp add: ddiv_def double_numeral)
  have u: "dmul 2 50 = 100"
    by (simp add: dmul_def double_numeral)
  have s: "dadd (PRIORITY_WEIGHTS (priority t)) 100 = PRIORITY_WEIGHTS (priority t) + 100"
    by (cases "priority t") (simp_all add: PRIORITY_WEIGHTS_def dadd_def double_numeral)
  have "computeScore t now
     = dadd (PRIORITY_WEIGHTS (priority t))
         (dmul (ddiv 1 (ddiv (double (of_int (deadline t - now))) 3600000)) 50)"
    using assms by (intro computeScore_future) simp_all
  then show ?thesis
    by (simp only: assms(2) h r u s)
qed






subsection \<open>Consistency score and time health\<close>

lemma Math_round_bounds:
  "0 \<le> x \<Longrightarrow> x \<le> 100 \<Longrightarrow> 0 \<le> Math_round x \<and> Math_round x \<le> 100"
  unfolding Math_round_def by (simp add: le_floor_iff floor_le_iff)

lemma isOnTime_iff:
  "isOnTime t \<longleftrightarrow> status t = COMPLETED \<and> (\<exists>c. completedAt t = Some c \<and> c \<le> deadline t)"
  by (cases "completedAt t") (auto simp: isOnTime_def)

lemma isLate_iff:
  "isLate t \<longleftrightarrow>
     status t = COMPLETED
     \<and> (completedAt t = None \<or> (\<exists>c. completedAt t = Some c \<and> deadline t < c))"
  by (cases "completedAt t") (auto simp: isLate_def)

lemma classes_exclusive:
  "\<not> (isOnTime t \<and> isLate t) \<and> \<not> (isOnTime t \<and> isOverdue now t)
   \<and> \<not> (isLate t \<and> isOverdue now t)"
  by (auto simp: isOnTime_def isLate_def isOverdue_def)

lemma percentage_bounds:
  assumes "0 \<le> a" "a \<le> n" "0 < n"
  shows "0 \<le> dmul (ddiv a n) 100" and "dmul (ddiv a n) 100 \<le> 100"
proof -
  have "0 \<le> a / n" using assms by simp
  then have q0: "0 \<le> double (a / n)" by (rule double_nonneg)
  have "a / n \<le> 1" using assms by simp
  then have "double (a / n) \<le> double 1" by (rule double_mono)
  then have q1: "double (a / n) \<le> 1" by (simp add: double_one)
  from q0 have "0 \<le> double (a / n) * 100" by simp
  then show "0 \<le> dmul (ddiv a n) 100"
    unfolding dmul_def ddiv_def by (rule double_nonneg)
  from q1 have "double (a / n) * 100 \<le> 100" by simp
  then have "double (double (a / n) * 100) \<le> double 100" by (rule double_mono)
  then show "dmul (ddiv a n) 100 \<le> 100"
    by (simp add: dmul_def ddiv_def double_numeral)
qed

lemma consistency_counts:
  "computeConsistencyScore ts now =
     (let onTime = length (filter isOnTime ts);
          total = onTime + length (filter isLate ts) + length (filter (isOverdue now) ts)
      in if total = 0 then 0 else Math_round (dmul (ddiv (real onTime) (real total)) 100))"
  by (simp add: computeConsistencyScore_def Let_def)

lemma consistency_range:
  "0 \<le> computeConsistencyScore ts now \<and> computeConsistencyScore ts now \<le> 100"
proof -
  define a where "a = length (filter isOnTime ts)"
  define n where "n = a + length (filter isLate ts) + length (filter (isOverdue now) ts)"
  have an: "a \<le> n" by (simp add: n_def)
  have cs: "computeConsistencyScore ts now
            = (if n = 0 then 0 else Math_round (dmul (ddiv (real a) (real n)) 100))"
    by (simp add: consistency_counts Let_def a_def n_def)
  show ?thesis
  proof (cases "n = 0")
    case True
    then show ?thesis by (simp add: cs)
  next
    case False
    then have "0 < real n" by simp
    moreover have "real a \<le> real n" using an by simp
    moreover have "0 \<le> real a" by simp
    ultimately have "0 \<le> dmul (ddiv (real a) (real n)) 100"
      "dmul (ddiv (real a) (real n)) 100 \<le> 100"
      by (simp_all only: percentage_bounds)
    from Math_round_bounds [OF this] False show ?thesis
      by (simp add: cs)
  qed
qed

lemma exampleHistory_counts:
  "length (filter isOnTime (exampleHistory n k)) = n"
  "length (filter isLate (exampleHistory n k)) = k"
  "length (filter (isOverdue now) (exampleHistory n k)) = 0"
  by (simp_all add: exampleHistory_def filter_map comp_def isOnTime_def isLate_def
      isOverdue_def exampleTask_def)

lemma percentage_3_4: "Math_round (dmul (ddiv 3 4) 100) = 75"
proof -
  have a: "ddiv 3 4 = 3 / 4"
    unfolding ddiv_def by (rule double_three_quarters)
  have b: "dmul (3 / 4) 100 = 75"
    by (simp add: dmul_def double_numeral)
  have "Math_round 75 = 75"
    by (simp add: Math_round_def)
  then show ?thesis
    by (simp only: a b)
qed

lemma percentage_23_40: "Math_round (dmul (ddiv 23 40) 100) = 57"
proof -
  have a: "ddiv 23 40 = 2589569785738035 / 2 ^ 52"
    unfolding ddiv_def by (rule double_23_40)
  have b: "dmul (2589569785738035 / 2 ^ 52) 100 = 8092405580431359 / 2 ^ 47"
    unfolding dmul_def by (rule double_23_40_percent)
  have "Math_round (8092405580431359 / 2 ^ 47) = 57"
    unfolding Math_round_def by (simp add: floor_eq_iff)
  then show ?thesis
    by (simp only: a b)
qed

lemma percentage_1_2: "Math_round (Math_max 0 (Math_min 100 (dmul (ddiv 500 1000) 100))) = 50"
proof -
  have "double (500 / 1000) = double (1 / 2)" by simp
  then have a: "ddiv 500 1000 = 1 / 2"
    by (simp only: ddiv_def double_half)
  have b: "dmul (1 / 2) 100 = 50"
    by (simp add: dmul_def double_numeral)
  have "Math_round (Math_max 0 (Math_min 100 50)) = 50"
    by (simp add: Math_round_def Math_max_def Math_min_def)
  then show ?thesis
    by (simp only: a b)
qed

lemma consistency_three_of_four: "computeConsistencyScore (exampleHistory 3 1) now = 75"
  using percentage_3_4 by (simp add: consistency_counts exampleHistory_counts)

lemma consistency_23_of_40: "computeConsistencyScore (exampleHistory 23 17) now = 57"
  using percentage_23_40 by (simp add: consistency_counts exampleHistory_counts)

lemma consistency_three_and_one:
  "length (filter isOnTime ts) = 3 \<Longrightarrow> length (filter isLate ts) = 1 \<Longrightarrow>
     length (filter (isOverdue now) ts) = 0 \<Longrightarrow> computeConsistencyScore ts now = 75"
  using percentage_3_4 by (simp add: consistency_counts)

text \<open>
  C4.  The code misses the claimed value where the percentage is a half.  Of 40 tasks,
  23 completed by their deadline and 17 completed after it, the claim gives
  \<open>round (23 / 40 * 100) = round 57.5 = 58\<close>; the code divides first, and in doubles
  \<open>(23 / 40) * 100\<close> is 57.49999999999999, which \<open>Math.round\<close> takes to 57.  The rest of the
  claim holds: a task is counted on time when it is completed and \<open>completedAt\<close> is
  defined and at most the deadline, late when it is completed and \<open>completedAt\<close> is
  undefined or after the deadline, overdue when it is pending and its deadline is
  before now, and no task is in two of the classes; the empty list gives 0; the result
  lies in 0..100; three on-time tasks with one late task (and none overdue) give 75.
\<close>

theorem computeConsistencyScore_misses_half:
  "length (filter isOnTime (exampleHistory 23 17)) = 23
   \<and> length (filter isLate (exampleHistory 23 17)) = 17
   \<and> length (filter (isOverdue 100) (exampleHistory 23 17)) = 0
   \<and> round ((23 :: real) / (23 + 17 + 0) * 100) = 58
   \<and> computeConsistencyScore (exampleHistory 23 17) 100 = 57
   \<and> (isOnTime t \<longleftrightarrow>
        status t = COMPLETED \<and> (\<exists>c. completedAt t = Some c \<and> c \<le> deadline t))
   \<and> (isLate t \<longleftrightarrow>
        status t = COMPLETED
        \<and> (completedAt t = None \<or> (\<exists>c. completedAt t = Some c \<and> deadline t < c)))
   \<and> (isOverdue now t \<longleftrightarrow> status t = PENDING \<and> deadline t < now)
   \<and> \<not> (isOnTime t \<and> isLate t) \<and> \<not> (isOnTime t \<and> isOverdue now t)
   \<and> \<not> (isLate t \<and> isOverdue now t)
   \<and> computeConsistencyScore [] now = 0
   \<and> 0 \<le> computeConsistencyScore ts now \<and> computeConsistencyScore ts now \<le> 100
   \<and> computeConsistencyScore (exampleHistory 3 1) now = 75
   \<and> (length (filter isOnTime us) = 3 \<and> length (filter isLate us) = 1
        \<and> length (filter (isOverdue now) us) = 0 \<longrightarrow> computeConsistencyScore us now = 75)"
proof -
  have "round ((23 :: real) / (23 + 17 + 0) * 100) = 58"
    by (simp add: round_def floor_eq_iff)
  moreover have "computeConsistencyScore [] now = 0"
    by (simp add: computeConsistencyScore_def)
  moreover have "isOverdue now t \<longleftrightarrow> status t = PENDING \<and> deadline t < now"
    by (simp add: isOverdue_def)
  moreover note exampleHistory_counts [where n = 23 and k = 17] consistency_23_of_40 [of 100]
    isOnTime_iff [of t] isLate_iff [of t] classes_exclusive [of t now]
    consistency_range [of ts now] consistency_three_of_four [of now]
    consistency_three_and_one [of us now]
  ultimately show ?thesis
    by (intro conjI) simp_all
qed

text \<open>
  An instance: three tasks completed by their deadline and one completed after it.
\<close>

theorem computeConsistencyScore_misses_half_witness:
  "length (filter isOnTime
      [exampleTask ''A'' LOW 10 COMPLETED (Some 10), exampleTask ''B'' HIGH 20 COMPLETED (Some 5),
       exampleTask ''C'' LOW 30 COMPLETED (Some 29), exampleTask ''D'' LOW 40 COMPLETED (Some 41)]) = 3
   \<and> length (filter isLate
      [exampleTask ''A'' LOW 10 COMPLETED (Some 10), exampleTask ''B'' HIGH 20 COMPLETED (Some 5),
       exampleTask ''C'' LOW 30 COMPLETED (Some 29), exampleTask ''D'' LOW 40 COMPLETED (Some 41)]) = 1
   \<and> length (filter (isOverdue 100)
      [exampleTask ''A'' LOW 10 COMPLETED (Some 10), exampleTask ''B'' HIGH 20 COMPLETED (Some 5),
       exampleTask ''C'' LOW 30 COMPLETED (Some 29), exampleTask ''D'' LOW 40 COMPLETED (Some 41)]) = 0
   \<and> computeConsistencyScore
      [exampleTask ''A'' LOW 10 COMPLETED (Some 10), exampleTask ''B'' HIGH 20 COMPLETED (Some 5),
       exampleTask ''C'' LOW 30 COMPLETED (Some 29), exampleTask ''D'' LOW 40 COMPLETED (Some 41)]
      100 = 75"
  using computeConsistencyScore_misses_half
    [where now = 100 and t = "exampleTask ''A'' LOW 10 COMPLETED (Some 10)" and ts = "[]"
       and us =
      "[exampleTask ''A'' LOW 10 COMPLETED (Some 10), exampleTask ''B'' HIGH 20 COMPLETED (Some 5),
       exampleTask ''C'' LOW 30 COMPLETED (Some 29), exampleTask ''D'' LOW 40 COMPLETED (Some 41)]"]
  by (simp add: isOnTime_def isLate_def isOverdue_def exampleTask_def)

lemma timeHealth_range: "0 \<le> computeTimeHealth t now \<and> computeTimeHealth t now \<le> 100"
proof -
  have "0 \<le> Math_max 0 (Math_min 100 x)" "Math_max 0 (Math_min 100 x) \<le> 100" for x
    by (simp_all add: Math_max_def Math_min_def)
  from Math_round_bounds [OF this] show ?thesis
    by (simp add: computeTimeHealth_def Let_def)
qed

lemma timeHealth_completed:
  "computeTimeHealth (t\<lparr>status := COMPLETED\<rparr>) now
     = (if (\<exists>c. completedAt t = Some c \<and> c \<le> deadline t) then 100 else 0)"
  by (cases "completedAt t") (simp_all add: computeTimeHealth_def)

lemma timeHealth_degenerate:
  "computeTimeHealth (t\<lparr>status := PENDING, createdAt := deadline t + int n\<rparr>) now = 0"
proof -
  have "deadline t - (deadline t + int n) \<le> 0" by simp
  then have "real_of_int (deadline t - (deadline t + int n)) \<le> 0"
    by (simp only: of_int_le_0_iff)
  then have "dsub (of_int (deadline t)) (of_int (deadline t + int n)) \<le> 0"
    by (simp only: msRemaining_eq double_nonpos_iff)
  then show ?thesis
    by (simp add: computeTimeHealth_def Let_def)
qed

lemma timeHealth_pending:
  assumes "status t = PENDING" "0 < deadline t - createdAt t"
  shows "computeTimeHealth t now
     = Math_round (Math_max 0 (Math_min 100
         (dmul (ddiv (double (of_int (deadline t - now)))
                     (double (of_int (deadline t - createdAt t)))) 100)))"
proof -
  have "\<not> dsub (of_int (deadline t)) (of_int (createdAt t)) \<le> 0"
    using assms(2) by (simp add: msRemaining_eq double_nonpos_iff)
  then show ?thesis
    using assms(1) by (simp add: computeTimeHealth_def Let_def msRemaining_eq)
qed

lemma timeHealth_halfway:
  "computeTimeHealth (t\<lparr>status := PENDING, createdAt := 0, deadline := 1000\<rparr>) 500 = 50"
proof -
  let ?t = "t\<lparr>status := PENDING, createdAt := 0, deadline := 1000\<rparr>"
  have "computeTimeHealth ?t 500
     = Math_round (Math_max 0 (Math_min 100
         (dmul (ddiv (double (of_int (deadline ?t - 500)))
                     (double (of_int (deadline ?t - createdAt ?t)))) 100)))"
    by (rule timeHealth_pending) simp_all
  also have "deadline ?t - 500 = 500" by simp
  also have "deadline ?t - createdAt ?t = 1000" by simp
  also have "double (real_of_int 500) = 500" by (simp add: double_numeral)
  also have "double (real_of_int 1000) = 1000" by (simp add: double_numeral)
  finally show ?thesis
    by (simp only: percentage_1_2)
qed

lemma timeHealth_halfway_general:
  assumes "0 < h"
  shows "computeTimeHealth (t\<lparr>status := PENDING, createdAt := c, deadline := c + 2 * h\<rparr>) (c + h)
         = 50"
proof -
  let ?t = "t\<lparr>status := PENDING, createdAt := c, deadline := c + 2 * h\<rparr>"
  define r where "r = double (real_of_int h)"
  have r: "0 < r"
    unfolding r_def using assms by (intro double_pos) simp
  have total: "double (real_of_int (2 * h)) = 2 * r"
  proof -
    have "real_of_int (2 * h) = 2 * real_of_int h" by simp
    moreover have "double (2 * real_of_int h) = 2 * double (real_of_int h)"
      using assms by (intro double_twice) simp
    ultimately show ?thesis by (simp only: r_def)
  qed
  have half: "ddiv r (2 * r) = 1 / 2"
  proof -
    have "r / (2 * r) = 1 / 2" using r by simp
    then show ?thesis by (simp only: ddiv_def double_half)
  qed
  have b: "dmul (1 / 2) 100 = 50"
    by (simp add: dmul_def double_numeral)
  have c: "Math_round (Math_max 0 (Math_min 100 50)) = 50"
    by (simp add: Math_round_def Math_max_def Math_min_def)
  have "computeTimeHealth ?t (c + h)
     = Math_round (Math_max 0 (Math_min 100
         (dmul (ddiv (double (of_int (deadline ?t - (c + h))))
                     (double (of_int (deadline ?t - createdAt ?t)))) 100)))"
    using assms by (intro timeHealth_pending) simp_all
  also have "deadline ?t - (c + h) = h" by simp
  also have "deadline ?t - createdAt ?t = 2 * h" by simp
  finally show ?thesis
    by (simp only: total r_def [symmetric] half b c)
qed

lemma timeHealth_23_of_40:
  "computeTimeHealth (exampleTask ''A'' LOW 40 PENDING None) 17 = 57"
proof -
  let ?t = "exampleTask ''A'' LOW 40 PENDING None"
  have c: "Math_max 0 (Math_min 100 (8092405580431359 / 2 ^ 47)) = 8092405580431359 / 2 ^ 47"
    by (simp add: Math_max_def Math_min_def)
  have a: "ddiv 23 40 = 2589569785738035 / 2 ^ 52"
    unfolding ddiv_def by (rule double_23_40)
  have b: "dmul (2589569785738035 / 2 ^ 52) 100 = 8092405580431359 / 2 ^ 47"
    unfolding dmul_def by (rule double_23_40_percent)
  have r: "Math_round (8092405580431359 / 2 ^ 47) = 57"
    unfolding Math_round_def by (simp add: floor_eq_iff)
  have "computeTimeHealth ?t 17
     = Math_round (Math_max 0 (Math_min 100
         (dmul (ddiv (double (of_int (deadline ?t - 17)))
                     (double (of_int (deadline ?t - createdAt ?t)))) 100)))"
    by (rule timeHealth_pending) (simp_all add: exampleTask_def)
  also have "deadline ?t - 17 = 23" by (simp add: exampleTask_def)
  also have "deadline ?t - createdAt ?t = 40" by (simp add: exampleTask_def)
  also have "double (real_of_int 23) = 23" by (simp add: double_numeral)
  also have "double (real_of_int 40) = 40" by (simp add: double_numeral)
  finally show ?thesis
    by (simp only: a b c r)
qed

text \<open>
  C5.  The code misses the claimed value where the percentage is a half.  For a pending
  task created at 0 and due at 40, asked at 17, the claim gives
  \<open>round (clamp (23 / 40 * 100, 0, 100)) = round 57.5 = 58\<close>; the code divides first, and
  in doubles \<open>(23 / 40) * 100\<close> is 57.49999999999999, which \<open>Math.round\<close> takes to 57.  The
  rest of the claim holds: a completed task gives 100 when it was completed on or
  before the deadline and 0 otherwise; a pending task whose deadline is not after
  \<open>createdAt\<close> gives 0; the result lies in 0..100; completion exactly at the deadline
  gives 100, one millisecond later gives 0, and a pending task asked exactly halfway
  between \<open>createdAt\<close> and \<open>deadline\<close> gives 50 (so one created at 0 and due at 1000, at
  500).
\<close>

theorem computeTimeHealth_misses_half:
  "status (exampleTask ''A'' LOW 40 PENDING None) = PENDING
   \<and> createdAt (exampleTask ''A'' LOW 40 PENDING None) = 0
   \<and> deadline (exampleTask ''A'' LOW 40 PENDING None) = 40
   \<and> round (max 0 (min 100 (real_of_int (40 - 17) / real_of_int (40 - 0) * 100))) = 58
   \<and> computeTimeHealth (exampleTask ''A'' LOW 40 PENDING None) 17 = 57
   \<and> computeTimeHealth (t\<lparr>status := COMPLETED\<rparr>) now
       = (if (\<exists>c. completedAt t = Some c \<and> c \<le> deadline t) then 100 else 0)
   \<and> computeTimeHealth (t\<lparr>status := PENDING, createdAt := deadline t + int n\<rparr>) now = 0
   \<and> 0 \<le> computeTimeHealth t now \<and> computeTimeHealth t now \<le> 100
   \<and> computeTimeHealth (t\<lparr>status := COMPLETED, completedAt := Some (deadline t)\<rparr>) now = 100
   \<and> computeTimeHealth (t\<lparr>status := COMPLETED, completedAt := Some (deadline t + 1)\<rparr>) now = 0
   \<and> computeTimeHealth (t\<lparr>status := PENDING, createdAt := 0, deadline := 1000\<rparr>) 500 = 50
   \<and> (0 < h \<longrightarrow>
        computeTimeHealth (t\<lparr>status := PENDING, createdAt := c, deadline := c + 2 * h\<rparr>) (c + h)
          = 50)"
proof -
  have "round (max 0 (min 100 (real_of_int (40 - 17) / real_of_int (40 - 0) * 100))) = 58"
    by (simp add: round_def floor_eq_iff)
  moreover have
    "computeTimeHealth (t\<lparr>status := COMPLETED, completedAt := Some (deadline t)\<rparr>) now = 100"
    "computeTimeHealth (t\<lparr>status := COMPLETED, completedAt := Some (deadline t + 1)\<rparr>) now = 0"
    by (simp_all add: computeTimeHealth_def)
  moreover have "status (exampleTask ''A'' LOW 40 PENDING None) = PENDING"
    "createdAt (exampleTask ''A'' LOW 40 PENDING None) = 0"
    "deadline (exampleTask ''A'' LOW 40 PENDING None) = 40"
    by (simp_all add: exampleTask_def)
  moreover note timeHealth_23_of_40 timeHealth_completed [of t now]
    timeHealth_degenerate [of t n now] timeHealth_range [of t now] timeHealth_halfway [of t]
    timeHealth_halfway_general [where h = h and t = t and c = c]
  ultimately show ?thesis
    by (intro conjI) simp_all
qed

text \<open>An instance: a task created at 0 and due at 60000, asked at 30000.\<close>

theorem computeTimeHealth_misses_half_witness:
  "(0::int) < 30000
   \<and> computeTimeHealth (exampleTask ''A'' LOW 60000 PENDING None) 30000 = 50"
  using computeTimeHealth_misses_half
    [where t = "exampleTask ''A'' LOW 60000 PENDING None" and now = 0 and n = 0
       and h = 30000 and c = 0]
  by (simp add: exampleTask_def)

section \<open>Properties of the ranked view\<close>

lemma score_withScore: "score (withScore now t) = computeScore t now"
  by (cases t) (simp add: withScore_def task.defs scored_task.defs)

lemma truncate_withScore: "task.truncate (withScore now t) = t"
  by (cases t) (simp add: withScore_def task.defs scored_task.defs)

lemma status_withScore: "status (withScore now t) = status t"
  by (cases t) (simp add: withScore_def task.defs scored_task.defs)

text \<open>The comparator puts \<open>a\<close> before \<open>b\<close> exactly when \<open>b\<close> does not score more.\<close>

lemma byScoreDesc_le: "byScoreDesc a b \<le> 0 \<longleftrightarrow> score b \<le> score a"
  by (simp add: byScoreDesc_def dsub_def double_nonpos_iff)

text \<open>With this comparator the model of \<open>Array.prototype.sort\<close> is the library's stable sort.\<close>

lemma insert_sorted_insort:
  "insert_sorted byScoreDesc x ys = insort_key (\<lambda>e. - score e) x ys"
  by (induction ys) (simp_all add: byScoreDesc_le)

lemma Array_sort_sort_key: "Array_sort byScoreDesc xs = sort_key (\<lambda>e. - score e) xs"
  by (induction xs) (simp_all add: Array_sort_def sort_key_def insert_sorted_insort)

lemma mset_Array_sort: "mset (Array_sort byScoreDesc xs) = mset xs"
  by (simp add: Array_sort_sort_key)

lemma sorted_Array_sort: "sorted_wrt (\<lambda>a b. score b \<le> score a) (Array_sort byScoreDesc xs)"
proof -
  have "sorted (map (\<lambda>e. - score e) (sort_key (\<lambda>e. - score e) xs))"
    by (rule sorted_sort_key)
  then show ?thesis
    by (simp add: Array_sort_sort_key sorted_map)
qed

lemma stable_Array_sort:
  "filter (\<lambda>e. score e = k) (Array_sort byScoreDesc xs) = filter (\<lambda>e. score e = k) xs"
proof -
  have "filter (\<lambda>e. - score e = - k) (sort_key (\<lambda>e. - score e) xs)
        = filter (\<lambda>e. - score e = - k) xs"
    by (rule sort_key_stable)
  then show ?thesis by (simp add: Array_sort_sort_key)
qed

lemma insert_sorted_map:
  assumes "\<And>a b. cmp (g a) (g b) = cmp' a b"
  shows "insert_sorted cmp (g x) (map g ys) = map g (insert_sorted cmp' x ys)"
  by (induction ys) (simp_all add: assms)

lemma Array_sort_map:
  assumes "\<And>a b. cmp (g a) (g b) = cmp' a b"
  shows "Array_sort cmp (map g xs) = map g (Array_sort cmp' xs)"
proof (induction xs)
  case Nil
  then show ?case by (simp add: Array_sort_def)
next
  case (Cons x xs)
  have "Array_sort cmp (map g (x # xs)) = insert_sorted cmp (g x) (Array_sort cmp (map g xs))"
    by (simp add: Array_sort_def)
  also have "\<dots> = insert_sorted cmp (g x) (map g (Array_sort cmp' xs))"
    by (simp only: Cons.IH)
  also have "\<dots> = map g (insert_sorted cmp' x (Array_sort cmp' xs))"
    by (rule insert_sorted_map) (rule assms)
  finally show ?case by (simp add: Array_sort_def)
qed

lemma sort_three:
  "Array_sort byScoreDesc [a\<lparr>score := 50\<rparr>, b\<lparr>score := 50\<rparr>, c\<lparr>score := 90\<rparr>]
     = [c\<lparr>score := 90\<rparr>, a\<lparr>score := 50\<rparr>, b\<lparr>score := 50\<rparr>]"
  by (simp add: Array_sort_def byScoreDesc_le)

lemma smartSorted_three:
  "smartSortedTasks 0
     [exampleTask ''A'' MEDIUM 3600000 PENDING None,
      exampleTask ''B'' MEDIUM 3600000 PENDING None,
      exampleTask ''C'' HIGH 3600000 PENDING None]
   = [withScore 0 (exampleTask ''C'' HIGH 3600000 PENDING None),
      withScore 0 (exampleTask ''A'' MEDIUM 3600000 PENDING None),
      withScore 0 (exampleTask ''B'' MEDIUM 3600000 PENDING None)]"
proof -
  have "computeScore (exampleTask ''A'' MEDIUM 3600000 PENDING None) 0 = 100"
    "computeScore (exampleTask ''B'' MEDIUM 3600000 PENDING None) 0 = 100"
    "computeScore (exampleTask ''C'' HIGH 3600000 PENDING None) 0 = 150"
    by (subst computeScore_one_hour; simp add: exampleTask_def PRIORITY_WEIGHTS_def)+
  then show ?thesis
    by (simp add: smartSortedTasks_def Array_sort_def byScoreDesc_le score_withScore)
qed

lemma ranking_edit:
  assumes "\<And>t. computeScore (e t) now = computeScore t now"
  shows "map score (smartSortedTasks now (map e ts)) = map score (smartSortedTasks now ts)
       \<and> map task.truncate (smartSortedTasks now (map e ts))
         = map e (map task.truncate (smartSortedTasks now ts))"
proof -
  let ?c = "\<lambda>a b. dsub (computeScore b now) (computeScore a now)"
  have 1: "smartSortedTasks now (map e ts) = map (withScore now \<circ> e) (Array_sort ?c ts)"
    unfolding smartSortedTasks_def map_map
    by (rule Array_sort_map) (simp add: byScoreDesc_def assms score_withScore)
  have 2: "smartSortedTasks now ts = map (withScore now) (Array_sort ?c ts)"
    unfolding smartSortedTasks_def
    by (rule Array_sort_map) (simp add: byScoreDesc_def score_withScore)
  show ?thesis
    by (simp add: 1 2 assms comp_def score_withScore truncate_withScore)
qed

lemma computeScore_cong:
  "priority t1 = priority t2 \<Longrightarrow> deadline t1 = deadline t2 \<Longrightarrow> status t1 = status t2 \<Longrightarrow>
     computeScore t1 now = computeScore t2 now"
  by (simp add: computeScore_def)

subsection \<open>Memoisation\<close>

lemma lookup_None_iff: "lookup input es = None \<longleftrightarrow> ref input \<notin> (\<lambda>e. ref (fst e)) ` set es"
  by (induction es) (auto simp: lookup_def)

lemma lookup_SomeD:
  "lookup input es = Some res \<Longrightarrow> \<exists>e \<in> set es. ref (fst e) = ref input \<and> snd e = res"
  by (induction es) (auto simp: lookup_def split: if_splits)

lemma lookup_remember:
  "ref input = ref input' \<Longrightarrow> lookup input (remember m (input', res) es) = Some res"
  by (cases m) (simp_all add: lookup_def)

lemma set_remember: "set (remember m e es) \<subseteq> insert e (set es)"
  by (cases m) auto

lemma mem_remember: "e \<in> set (remember m e es)"
  by (cases m) simp_all

lemma createSelector_hit:
  "lookup (inputSelector state) (cache w) = Some res \<Longrightarrow>
     createSelector m inputSelector resultFunc state w = (res, w)"
  by (simp add: createSelector_def Let_def)

lemma createSelector_miss:
  "lookup (inputSelector state) (cache w) = None \<Longrightarrow>
     createSelector m inputSelector resultFunc state w
       = (resultFunc (clock w) (elems (inputSelector state)),
          w\<lparr>cache := remember m (inputSelector state,
                                  resultFunc (clock w) (elems (inputSelector state))) (cache w),
            recomputations := Suc (recomputations w)\<rparr>)"
  by (simp add: createSelector_def Let_def)

lemma lookup_after_createSelector:
  "lookup (inputSelector state) (cache (snd (createSelector m inputSelector resultFunc state w)))
     = Some (fst (createSelector m inputSelector resultFunc state w))"
proof (cases "lookup (inputSelector state) (cache w)")
  case None
  then show ?thesis
    by (simp add: createSelector_miss lookup_remember)
next
  case (Some res)
  then show ?thesis
    by (simp add: createSelector_hit)
qed

lemma selector_result:
  assumes "cacheSound w" "identityRespected (selectTasks state) w"
  shows "\<exists>t. fst (selectSmartSortedTasks m state w)
               = smartSortedTasks t (elems (selectTasks state))"
proof (cases "lookup (selectTasks state) (cache w)")
  case None
  then have "fst (selectSmartSortedTasks m state w)
             = smartSortedTasks (clock w) (elems (selectTasks state))"
    by (simp add: selectSmartSortedTasks_def createSelector_miss)
  then show ?thesis ..
next
  case (Some res)
  then obtain e where e: "e \<in> set (cache w)" "ref (fst e) = ref (selectTasks state)" "snd e = res"
    by (blast dest: lookup_SomeD)
  from assms(1) e(1) obtain t where "snd e = smartSortedTasks t (elems (fst e))"
    by (auto simp: cacheSound_def)
  moreover from assms(2) e(1,2) have "elems (fst e) = elems (selectTasks state)"
    by (simp add: identityRespected_def)
  ultimately have "res = smartSortedTasks t (elems (selectTasks state))"
    using e(3) by simp
  with Some have "fst (selectSmartSortedTasks m state w)
             = smartSortedTasks t (elems (selectTasks state))"
    by (simp add: selectSmartSortedTasks_def createSelector_hit)
  then show ?thesis ..
qed

lemma selector_keeps_sound:
  assumes "cacheSound w"
  shows "cacheSound (snd (selectSmartSortedTasks m state w))"
proof (cases "lookup (selectTasks state) (cache w)")
  case None
  let ?e = "(selectTasks state, smartSortedTasks (clock w) (elems (selectTasks state)))"
  have "\<exists>t. snd e = smartSortedTasks t (elems (fst e))"
    if "e \<in> set (remember m ?e (cache w))" for e
  proof -
    from that set_remember [of m ?e "cache w"] have "e = ?e \<or> e \<in> set (cache w)"
      by auto
    then show ?thesis
    proof
      assume "e = ?e"
      then have "snd e = smartSortedTasks (clock w) (elems (fst e))" by simp
      then show ?thesis ..
    next
      assume "e \<in> set (cache w)"
      with assms show ?thesis by (auto simp: cacheSound_def)
    qed
  qed
  with None show ?thesis
    by (simp add: selectSmartSortedTasks_def createSelector_miss cacheSound_def)
next
  case (Some res)
  with assms show ?thesis
    by (simp add: selectSmartSortedTasks_def createSelector_hit)
qed

lemma cachedRefs_after:
  "cachedRefs (snd (selectSmartSortedTasks m state w))
     \<subseteq> insert (ref (selectTasks state)) (cachedRefs w)"
proof (cases "lookup (selectTasks state) (cache w)")
  case None
  let ?e = "(selectTasks state, smartSortedTasks (clock w) (elems (selectTasks state)))"
  have "(\<lambda>e. ref (fst e)) ` set (remember m ?e (cache w))
        \<subseteq> (\<lambda>e. ref (fst e)) ` insert ?e (set (cache w))"
    by (intro image_mono set_remember)
  with None show ?thesis
    by (simp add: selectSmartSortedTasks_def createSelector_miss cachedRefs_def)
next
  case (Some res)
  then show ?thesis
    by (auto simp: selectSmartSortedTasks_def createSelector_hit)
qed

lemma cachedRefs_holds_input:
  "ref (selectTasks state) \<in> cachedRefs (snd (selectSmartSortedTasks m state w))"
proof -
  have "lookup (selectTasks state) (cache (snd (selectSmartSortedTasks m state w))) \<noteq> None"
    unfolding selectSmartSortedTasks_def by (simp add: lookup_after_createSelector)
  then show ?thesis
    by (simp add: lookup_None_iff cachedRefs_def)
qed

text \<open>
  C2.  The ranked list holds exactly the input tasks, each with its \<open>computeScore\<close> at
  the one shared \<open>now\<close>, in descending order of score, and the sort is stable: for every
  score, the tasks with that score stand in the order of the input.  Scores 50, 50, 90 in
  the input order A, B, C give C, A, B.  The pending and the completed lists are the
  PENDING-only and the COMPLETED-only subsequences of the ranked list.  The selector
  reads the task collection of the store and returns its ranked list: at the current
  reading of the clock when it starts from an empty cache, and at some reading of the
  clock from any cache whose results are ranked lists of the collections they are held
  for; it leaves such a cache behind.
\<close>

theorem smartSortedTasks_stable_descending:
  "mset (smartSortedTasks now ts) = mset (map (withScore now) ts)
   \<and> task.truncate (withScore now t) = t \<and> score (withScore now t) = computeScore t now
   \<and> sorted_wrt (\<lambda>a b. score b \<le> score a) (smartSortedTasks now ts)
   \<and> filter (\<lambda>e. score e = k) (smartSortedTasks now ts)
       = filter (\<lambda>e. score e = k) (map (withScore now) ts)
   \<and> Array_sort byScoreDesc [a\<lparr>score := 50\<rparr>, b\<lparr>score := 50\<rparr>, c\<lparr>score := 90\<rparr>]
       = [c\<lparr>score := 90\<rparr>, a\<lparr>score := 50\<rparr>, b\<lparr>score := 50\<rparr>]
   \<and> smartSortedTasks 0
       [exampleTask ''A'' MEDIUM 3600000 PENDING None,
        exampleTask ''B'' MEDIUM 3600000 PENDING None,
        exampleTask ''C'' HIGH 3600000 PENDING None]
       = [withScore 0 (exampleTask ''C'' HIGH 3600000 PENDING None),
          withScore 0 (exampleTask ''A'' MEDIUM 3600000 PENDING None),
          withScore 0 (exampleTask ''B'' MEDIUM 3600000 PENDING None)]
   \<and> pendingTasks (smartSortedTasks now ts)
       = filter (\<lambda>e. status e = PENDING) (smartSortedTasks now ts)
   \<and> subseq (pendingTasks (smartSortedTasks now ts)) (smartSortedTasks now ts)
   \<and> completedTasks (smartSortedTasks now ts)
       = filter (\<lambda>e. status e = COMPLETED) (smartSortedTasks now ts)
   \<and> subseq (completedTasks (smartSortedTasks now ts)) (smartSortedTasks now ts)
   \<and> selectTasks state = tasks (tasks_slice state)
   \<and> fst (selectSmartSortedTasks m state (w\<lparr>cache := []\<rparr>))
       = smartSortedTasks (clock w) (elems (tasks (tasks_slice state)))
   \<and> cacheSound (w\<lparr>cache := []\<rparr>)
   \<and> (cacheSound w \<and> identityRespected (tasks (tasks_slice state)) w \<longrightarrow>
        (\<exists>t. fst (selectSmartSortedTasks m state w)
               = smartSortedTasks t (elems (tasks (tasks_slice state))))
        \<and> cacheSound (snd (selectSmartSortedTasks m state w)))
   \<and> fst (selectPendingTasks m state w) = pendingTasks (fst (selectSmartSortedTasks m state w))
   \<and> fst (selectCompletedTasks m state w)
       = completedTasks (fst (selectSmartSortedTasks m state w))"
proof (intro conjI impI)
  show "mset (smartSortedTasks now ts) = mset (map (withScore now) ts)"
    unfolding smartSortedTasks_def by (rule mset_Array_sort)
  show "task.truncate (withScore now t) = t"
    by (rule truncate_withScore)
  show "score (withScore now t) = computeScore t now"
    by (rule score_withScore)
  show "sorted_wrt (\<lambda>a b. score b \<le> score a) (smartSortedTasks now ts)"
    unfolding smartSortedTasks_def by (rule sorted_Array_sort)
  show "filter (\<lambda>e. score e = k) (smartSortedTasks now ts)
       = filter (\<lambda>e. score e = k) (map (withScore now) ts)"
    unfolding smartSortedTasks_def by (rule stable_Array_sort)
  show "Array_sort byScoreDesc [a\<lparr>score := 50\<rparr>, b\<lparr>score := 50\<rparr>, c\<lparr>score := 90\<rparr>]
       = [c\<lparr>score := 90\<rparr>, a\<lparr>score := 50\<rparr>, b\<lparr>score := 50\<rparr>]"
    by (rule sort_three)
  show "smartSortedTasks 0
       [exampleTask ''A'' MEDIUM 3600000 PENDING None,
        exampleTask ''B'' MEDIUM 3600000 PENDING None,
        exampleTask ''C'' HIGH 3600000 PENDING None]
       = [withScore 0 (exampleTask ''C'' HIGH 3600000 PENDING None),
          withScore 0 (exampleTask ''A'' MEDIUM 3600000 PENDING None),
          withScore 0 (exampleTask ''B'' MEDIUM 3600000 PENDING None)]"
    by (rule smartSorted_three)
  show "pendingTasks (smartSortedTasks now ts)
       = filter (\<lambda>e. status e = PENDING) (smartSortedTasks now ts)"
    by (simp only: pendingTasks_def)
  show "subseq (pendingTasks (smartSortedTasks now ts)) (smartSortedTasks now ts)"
    by (simp add: pendingTasks_def)
  show "completedTasks (smartSortedTasks now ts)
       = filter (\<lambda>e. status e = COMPLETED) (smartSortedTasks now ts)"
    by (simp only: completedTasks_def)
  show "subseq (completedTasks (smartSortedTasks now ts)) (smartSortedTasks now ts)"
    by (simp add: completedTasks_def)
  show "selectTasks state = tasks (tasks_slice state)"
    by (simp only: selectTasks_def)
  show "fst (selectSmartSortedTasks m state (w\<lparr>cache := []\<rparr>))
       = smartSortedTasks (clock w) (elems (tasks (tasks_slice state)))"
    by (simp add: selectSmartSortedTasks_def createSelector_def lookup_def Let_def
        selectTasks_def)
  show "cacheSound (w\<lparr>cache := []\<rparr>)"
    by (simp add: cacheSound_def)
  show "fst (selectPendingTasks m state w)
       = pendingTasks (fst (selectSmartSortedTasks m state w))"
    by (simp add: selectPendingTasks_def split: prod.splits)
  show "fst (selectCompletedTasks m state w)
       = completedTasks (fst (selectSmartSortedTasks m state w))"
    by (simp add: selectCompletedTasks_def split: prod.splits)
next
  assume "cacheSound w \<and> identityRespected (tasks (tasks_slice state)) w"
  then have "cacheSound w" "identityRespected (selectTasks state) w"
    by (simp_all add: selectTasks_def)
  then have "\<exists>t. fst (selectSmartSortedTasks m state w)
               = smartSortedTasks t (elems (selectTasks state))"
    by (rule selector_result)
  then show "\<exists>t. fst (selectSmartSortedTasks m state w)
               = smartSortedTasks t (elems (tasks (tasks_slice state)))"
    by (simp only: selectTasks_def)
next
  assume "cacheSound w \<and> identityRespected (tasks (tasks_slice state)) w"
  then have "cacheSound w" by simp
  then show "cacheSound (snd (selectSmartSortedTasks m state w))"
    by (rule selector_keeps_sound)
qed

text \<open>
  An instance: the selector is called on the example store at time 0 from an empty
  cache, and again at time 1800000 from the cache the first call left, which holds the
  list of time 0; both calls return a ranked list of the store's one task.
\<close>

theorem smartSortedTasks_stable_descending_witness:
  "cacheSound \<lparr>clock = 0, cache = [], recomputations = 0\<rparr>
   \<and> identityRespected (tasks (tasks_slice exampleState))
        \<lparr>clock = 0, cache = [], recomputations = 0\<rparr>
   \<and> cache ((snd (selectSmartSortedTasks LastInput exampleState
          \<lparr>clock = 0, cache = [], recomputations = 0\<rparr>))\<lparr>clock := 1800000\<rparr>)
       = [(tasks (tasks_slice exampleState),
           smartSortedTasks 0 [exampleTask ''A'' HIGH 3600000 PENDING None])]
   \<and> cacheSound ((snd (selectSmartSortedTasks LastInput exampleState
          \<lparr>clock = 0, cache = [], recomputations = 0\<rparr>))\<lparr>clock := 1800000\<rparr>)
   \<and> identityRespected (tasks (tasks_slice exampleState))
        ((snd (selectSmartSortedTasks LastInput exampleState
          \<lparr>clock = 0, cache = [], recomputations = 0\<rparr>))\<lparr>clock := 1800000\<rparr>)
   \<and> (\<exists>t. fst (selectSmartSortedTasks LastInput exampleState
          ((snd (selectSmartSortedTasks LastInput exampleState
            \<lparr>clock = 0, cache = [], recomputations = 0\<rparr>))\<lparr>clock := 1800000\<rparr>))
        = smartSortedTasks t [exampleTask ''A'' HIGH 3600000 PENDING None])
   \<and> cacheSound (snd (selectSmartSortedTasks LastInput exampleState
          ((snd (selectSmartSortedTasks LastInput exampleState
            \<lparr>clock = 0, cache = [], recomputations = 0\<rparr>))\<lparr>clock := 1800000\<rparr>)))"
proof -
  let ?w0 = "\<lparr>clock = 0, cache = [], recomputations = 0\<rparr>"
  let ?w1 = "(snd (selectSmartSortedTasks LastInput exampleState ?w0))\<lparr>clock := 1800000\<rparr>"
  have e: "elems (tasks (tasks_slice exampleState)) = [exampleTask ''A'' HIGH 3600000 PENDING None]"
    by (simp add: exampleState_def)
  have s0: "cacheSound ?w0"
    by (simp add: cacheSound_def)
  have i0: "identityRespected (tasks (tasks_slice exampleState)) ?w0"
    by (simp add: identityRespected_def)
  have c1: "cache ?w1 = [(tasks (tasks_slice exampleState),
           smartSortedTasks 0 [exampleTask ''A'' HIGH 3600000 PENDING None])]"
    by (simp add: selectSmartSortedTasks_def createSelector_def lookup_def Let_def
        selectTasks_def e)
  have i1: "identityRespected (tasks (tasks_slice exampleState)) ?w1"
    by (simp add: identityRespected_def c1)
  from smartSortedTasks_stable_descending
    [where m = LastInput and state = exampleState and w = ?w0]
  have "cacheSound (snd (selectSmartSortedTasks LastInput exampleState ?w0))"
    using s0 i0 by blast
  then have s1: "cacheSound ?w1"
    by (simp add: cacheSound_def)
  from smartSortedTasks_stable_descending
    [where m = LastInput and state = exampleState and w = ?w1]
  have "(\<exists>t. fst (selectSmartSortedTasks LastInput exampleState ?w1)
               = smartSortedTasks t (elems (tasks (tasks_slice exampleState))))
        \<and> cacheSound (snd (selectSmartSortedTasks LastInput exampleState ?w1))"
    using s1 i1 by blast
  with s0 i0 c1 s1 i1 show ?thesis
    by (simp only: e)
qed

text \<open>
  C10.  Two tasks that are not completed and agree on priority, deadline and status have
  the same score: the score does not read the title, the description, the tags, the
  subtasks, \<open>createdAt\<close> or \<open>completedAt\<close>.  An edit that keeps priority, deadline and
  status changes neither the scores nor the positions in the ranked list.
\<close>

theorem computeScore_other_fields:
  "(status t1 \<noteq> COMPLETED \<and> priority t1 = priority t2 \<and> deadline t1 = deadline t2
      \<and> status t1 = status t2 \<longrightarrow> computeScore t1 now = computeScore t2 now)
   \<and> computeScore (t\<lparr>title := a, description := b, tags := c, subtasks := d,
                      createdAt := e, completedAt := f\<rparr>) now = computeScore t now
   \<and> ((\<forall>x. priority (edit x) = priority x \<and> deadline (edit x) = deadline x
            \<and> status (edit x) = status x) \<longrightarrow>
        map score (smartSortedTasks now (map edit ts)) = map score (smartSortedTasks now ts)
        \<and> map task.truncate (smartSortedTasks now (map edit ts))
            = map edit (map task.truncate (smartSortedTasks now ts)))"
proof (intro conjI impI)
  assume "status t1 \<noteq> COMPLETED \<and> priority t1 = priority t2 \<and> deadline t1 = deadline t2
      \<and> status t1 = status t2"
  then have "priority t1 = priority t2" "deadline t1 = deadline t2" "status t1 = status t2"
    by simp_all
  then show "computeScore t1 now = computeScore t2 now"
    by (rule computeScore_cong)
next
  show "computeScore (t\<lparr>title := a, description := b, tags := c, subtasks := d,
                      createdAt := e, completedAt := f\<rparr>) now = computeScore t now"
    by (rule computeScore_cong) simp_all
next
  assume h: "\<forall>x. priority (edit x) = priority x \<and> deadline (edit x) = deadline x
            \<and> status (edit x) = status x"
  have "computeScore (edit x) now = computeScore x now" for x
    by (rule computeScore_cong) (simp_all add: h)
  from ranking_edit [of edit now ts, OF this]
  show "map score (smartSortedTasks now (map edit ts)) = map score (smartSortedTasks now ts)"
    and "map task.truncate (smartSortedTasks now (map edit ts))
            = map edit (map task.truncate (smartSortedTasks now ts))"
    by simp_all
qed

text \<open>An instance: renaming the task A and clearing its subtasks.\<close>

theorem computeScore_other_fields_witness:
  "(\<forall>x. priority (if task_id x = ''A'' then x\<lparr>title := ''renamed'', subtasks := []\<rparr> else x)
           = priority x
       \<and> deadline (if task_id x = ''A'' then x\<lparr>title := ''renamed'', subtasks := []\<rparr> else x)
           = deadline x
       \<and> status (if task_id x = ''A'' then x\<lparr>title := ''renamed'', subtasks := []\<rparr> else x)
           = status x)
   \<and> map task.truncate (smartSortedTasks 0
        (map (\<lambda>x. if task_id x = ''A'' then x\<lparr>title := ''renamed'', subtasks := []\<rparr> else x)
          [exampleTask ''A'' LOW 3600000 PENDING None, exampleTask ''B'' HIGH 3600000 PENDING None]))
     = [exampleTask ''B'' HIGH 3600000 PENDING None,
        (exampleTask ''A'' LOW 3600000 PENDING None)\<lparr>title := ''renamed'', subtasks := []\<rparr>]
   \<and> computeScore ((exampleTask ''A'' LOW 3600000 PENDING None)\<lparr>title := ''renamed''\<rparr>) 0
     = computeScore (exampleTask ''A'' LOW 3600000 PENDING None) 0"
proof -
  let ?edit = "\<lambda>x. if task_id x = ''A'' then x\<lparr>title := ''renamed'', subtasks := []\<rparr> else x"
  let ?A = "exampleTask ''A'' LOW 3600000 PENDING None"
  let ?B = "exampleTask ''B'' HIGH 3600000 PENDING None"
  have keeps: "\<forall>x. priority (?edit x) = priority x \<and> deadline (?edit x) = deadline x
                 \<and> status (?edit x) = status x"
    by simp
  have "computeScore ?A 0 = 60" "computeScore ?B 0 = 150"
    by (subst computeScore_one_hour; simp add: exampleTask_def PRIORITY_WEIGHTS_def)+
  then have ranked: "smartSortedTasks 0 [?A, ?B] = [withScore 0 ?B, withScore 0 ?A]"
    by (simp add: smartSortedTasks_def Array_sort_def byScoreDesc_le score_withScore)
  have edits: "?edit ?A = ?A\<lparr>title := ''renamed'', subtasks := []\<rparr>" "?edit ?B = ?B"
    by (simp_all add: exampleTask_def)
  from computeScore_other_fields
    [where edit = ?edit and now = 0 and ts = "[?A, ?B]"
       and ?t1.0 = "?A\<lparr>title := ''renamed''\<rparr>" and ?t2.0 = ?A]
  have same: "computeScore (?A\<lparr>title := ''renamed''\<rparr>) 0 = computeScore ?A 0"
    and moved: "map task.truncate (smartSortedTasks 0 (map ?edit [?A, ?B]))
            = map ?edit (map task.truncate (smartSortedTasks 0 [?A, ?B]))"
    using keeps by (simp_all add: exampleTask_def)
  note moved
  also have "map ?edit (map task.truncate (smartSortedTasks 0 [?A, ?B]))
        = [?B, ?A\<lparr>title := ''renamed'', subtasks := []\<rparr>]"
    by (simp only: ranked list.map truncate_withScore edits)
  finally have "map task.truncate (smartSortedTasks 0 (map ?edit [?A, ?B]))
        = [?B, ?A\<lparr>title := ''renamed'', subtasks := []\<rparr>]" .
  with keeps same show ?thesis
    by (intro conjI)
qed

lemma selector_scores_at:
  "map score (fst (selectSmartSortedTasks m exampleState
      \<lparr>clock = 0, cache = [], recomputations = 0\<rparr>)) = [150]
   \<and> map score (fst (selectSmartSortedTasks m exampleState
      \<lparr>clock = 1800000, cache = [], recomputations = 0\<rparr>)) = [200]"
proof -
  have s: "computeScore (exampleTask ''A'' HIGH 3600000 PENDING None) 0 = 150"
    "computeScore (exampleTask ''A'' HIGH 3600000 PENDING None) 1800000 = 200"
    by (subst computeScore_one_hour; simp add: exampleTask_def PRIORITY_WEIGHTS_def)
       (subst computeScore_half_hour; simp add: exampleTask_def PRIORITY_WEIGHTS_def)
  show ?thesis
    by (simp add: selectSmartSortedTasks_def createSelector_def lookup_def Let_def
        selectTasks_def exampleState_def smartSortedTasks_def Array_sort_def score_withScore s)
qed

lemma selector_differs:
  "fst (selectSmartSortedTasks m exampleState \<lparr>clock = 0, cache = [], recomputations = 0\<rparr>)
     \<noteq> fst (selectSmartSortedTasks m exampleState
           \<lparr>clock = 1800000, cache = [], recomputations = 0\<rparr>)"
proof
  let ?early = "fst (selectSmartSortedTasks m exampleState
        \<lparr>clock = 0, cache = [], recomputations = 0\<rparr>)"
  let ?late = "fst (selectSmartSortedTasks m exampleState
        \<lparr>clock = 1800000, cache = [], recomputations = 0\<rparr>)"
  assume eq: "?early = ?late"
  from selector_scores_at [of m]
  have a: "map score ?early = [150]" and b: "map score ?late = [200]"
    by simp_all
  have "[150::real] = map score ?early" by (simp only: a)
  also have "\<dots> = map score ?late" by (simp only: eq)
  also have "\<dots> = [200]" by (simp only: b)
  finally show False by simp
qed

text \<open>
  C6, as stated, fails: the time is not an argument of the selector.  Called with the
  same store on an empty cache, once with the clock at 0 and once with the clock at
  1800000, the selector returns different lists (the scores are 150 and 200), whichever
  inputs its cache would keep.
\<close>

theorem selectSmartSortedTasks_reads_clock:
  "map score (fst (selectSmartSortedTasks LastInput exampleState
      \<lparr>clock = 0, cache = [], recomputations = 0\<rparr>)) = [150]
   \<and> map score (fst (selectSmartSortedTasks LastInput exampleState
      \<lparr>clock = 1800000, cache = [], recomputations = 0\<rparr>)) = [200]
   \<and> fst (selectSmartSortedTasks LastInput exampleState
        \<lparr>clock = 0, cache = [], recomputations = 0\<rparr>)
     \<noteq> fst (selectSmartSortedTasks LastInput exampleState
           \<lparr>clock = 1800000, cache = [], recomputations = 0\<rparr>)
   \<and> map score (fst (selectSmartSortedTasks EveryInput exampleState
      \<lparr>clock = 0, cache = [], recomputations = 0\<rparr>)) = [150]
   \<and> map score (fst (selectSmartSortedTasks EveryInput exampleState
      \<lparr>clock = 1800000, cache = [], recomputations = 0\<rparr>)) = [200]
   \<and> fst (selectSmartSortedTasks EveryInput exampleState
        \<lparr>clock = 0, cache = [], recomputations = 0\<rparr>)
     \<noteq> fst (selectSmartSortedTasks EveryInput exampleState
           \<lparr>clock = 1800000, cache = [], recomputations = 0\<rparr>)"
  using selector_scores_at [of LastInput] selector_differs [of LastInput]
    selector_scores_at [of EveryInput] selector_differs [of EveryInput]
  by (intro conjI) simp_all

text \<open>
  C6, amended.  The ranked projection is memoised on the identity of the task
  collection.  Called with a collection whose identity its cache holds, it returns the
  result held for that identity and recomputes nothing, whatever the clock shows;
  called with a collection whose identity its cache does not hold (so on an empty
  cache) it recomputes, whether or not the scores differ.  After a call the cache holds
  the identity of that call's collection, and no identity it was not called with; so a
  second call with the same collection is answered from the cache, and a call with a
  collection never seen before recomputes.  (Whether an identity seen before the last
  call is still held depends on the memoiser.)  The time is not supplied by the caller:
  a recomputation reads the clock itself, so a second call with the same collection
  still returns the scores of the first call's time.
\<close>

theorem selectSmartSortedTasks_memoised:
  "(ref (selectTasks state) \<in> cachedRefs w \<longrightarrow>
      lookup (selectTasks state) (cache w) = Some (fst (selectSmartSortedTasks m state w))
      \<and> snd (selectSmartSortedTasks m state w) = w)
   \<and> (ref (selectTasks state) \<notin> cachedRefs w \<longrightarrow>
        fst (selectSmartSortedTasks m state w)
          = smartSortedTasks (clock w) (elems (selectTasks state))
        \<and> recomputations (snd (selectSmartSortedTasks m state w)) = Suc (recomputations w)
        \<and> clock (snd (selectSmartSortedTasks m state w)) = clock w)
   \<and> cachedRefs (w\<lparr>cache := []\<rparr>) = {}
   \<and> ref (selectTasks state) \<in> cachedRefs (snd (selectSmartSortedTasks m state w))
   \<and> cachedRefs (snd (selectSmartSortedTasks m state w))
       \<subseteq> insert (ref (selectTasks state)) (cachedRefs w)
   \<and> (ref (selectTasks state') = ref (selectTasks state) \<longrightarrow>
        selectSmartSortedTasks m state' ((snd (selectSmartSortedTasks m state w))\<lparr>clock := later\<rparr>)
          = (fst (selectSmartSortedTasks m state w),
             (snd (selectSmartSortedTasks m state w))\<lparr>clock := later\<rparr>))"
proof (intro conjI impI)
  assume "ref (selectTasks state) \<in> cachedRefs w"
  then have "lookup (selectTasks state) (cache w) \<noteq> None"
    by (simp add: lookup_None_iff cachedRefs_def)
  then obtain res where res: "lookup (selectTasks state) (cache w) = Some res"
    by blast
  then have "selectSmartSortedTasks m state w = (res, w)"
    unfolding selectSmartSortedTasks_def by (rule createSelector_hit)
  with res show "lookup (selectTasks state) (cache w)
                   = Some (fst (selectSmartSortedTasks m state w))"
    and "snd (selectSmartSortedTasks m state w) = w"
    by simp_all
next
  assume "ref (selectTasks state) \<notin> cachedRefs w"
  then have none: "lookup (selectTasks state) (cache w) = None"
    by (simp add: lookup_None_iff cachedRefs_def)
  show "fst (selectSmartSortedTasks m state w)
          = smartSortedTasks (clock w) (elems (selectTasks state))"
    and "recomputations (snd (selectSmartSortedTasks m state w)) = Suc (recomputations w)"
    and "clock (snd (selectSmartSortedTasks m state w)) = clock w"
    by (simp_all add: selectSmartSortedTasks_def createSelector_miss [where inputSelector = selectTasks, OF none])
next
  show "cachedRefs (w\<lparr>cache := []\<rparr>) = {}"
    by (simp add: cachedRefs_def)
next
  show "ref (selectTasks state) \<in> cachedRefs (snd (selectSmartSortedTasks m state w))"
    by (rule cachedRefs_holds_input)
next
  show "cachedRefs (snd (selectSmartSortedTasks m state w))
       \<subseteq> insert (ref (selectTasks state)) (cachedRefs w)"
    by (rule cachedRefs_after)
next
  assume same: "ref (selectTasks state') = ref (selectTasks state)"
  let ?r = "selectSmartSortedTasks m state w"
  have "lookup (selectTasks state) (cache (snd ?r)) = Some (fst ?r)"
    unfolding selectSmartSortedTasks_def by (rule lookup_after_createSelector)
  then have "lookup (selectTasks state') (cache ((snd ?r)\<lparr>clock := later\<rparr>)) = Some (fst ?r)"
    by (simp add: lookup_def same)
  then show "selectSmartSortedTasks m state' ((snd ?r)\<lparr>clock := later\<rparr>)
        = (fst ?r, (snd ?r)\<lparr>clock := later\<rparr>)"
    unfolding selectSmartSortedTasks_def by (rule createSelector_hit)
qed

text \<open>
  An instance: the first call, at time 0, computes the score 150; the second call with
  the same store, at time 1800000, returns that list again and the count of
  recomputations stays 1, although the score at that time would be 200.
\<close>

theorem selectSmartSortedTasks_memoised_witness:
  "ref (selectTasks exampleState)
     \<notin> cachedRefs \<lparr>clock = 0, cache = [], recomputations = 0\<rparr>
   \<and> ref (selectTasks exampleState) = ref (selectTasks exampleState)
   \<and> ref (selectTasks exampleState)
       \<in> cachedRefs ((snd (selectSmartSortedTasks LastInput exampleState
                  \<lparr>clock = 0, cache = [], recomputations = 0\<rparr>))\<lparr>clock := 1800000\<rparr>)
   \<and> map score (fst (selectSmartSortedTasks LastInput exampleState
          \<lparr>clock = 0, cache = [], recomputations = 0\<rparr>)) = [150]
   \<and> recomputations (snd (selectSmartSortedTasks LastInput exampleState
          \<lparr>clock = 0, cache = [], recomputations = 0\<rparr>)) = 1
   \<and> map score (fst (selectSmartSortedTasks LastInput exampleState
          ((snd (selectSmartSortedTasks LastInput exampleState
                  \<lparr>clock = 0, cache = [], recomputations = 0\<rparr>))\<lparr>clock := 1800000\<rparr>)))
       = [150]
   \<and> recomputations (snd (selectSmartSortedTasks LastInput exampleState
          ((snd (selectSmartSortedTasks LastInput exampleState
                  \<lparr>clock = 0, cache = [], recomputations = 0\<rparr>))\<lparr>clock := 1800000\<rparr>)))
       = 1
   \<and> map score (smartSortedTasks 1800000 (elems (selectTasks exampleState))) = [200]"
proof -
  let ?w0 = "\<lparr>clock = 0, cache = [], recomputations = 0\<rparr>"
  let ?r = "selectSmartSortedTasks LastInput exampleState ?w0"
  let ?w1 = "(snd ?r)\<lparr>clock := 1800000\<rparr>"
  have s: "computeScore (exampleTask ''A'' HIGH 3600000 PENDING None) 0 = 150"
    "computeScore (exampleTask ''A'' HIGH 3600000 PENDING None) 1800000 = 200"
    by (subst computeScore_one_hour; simp add: exampleTask_def PRIORITY_WEIGHTS_def)
       (subst computeScore_half_hour; simp add: exampleTask_def PRIORITY_WEIGHTS_def)
  have cold: "ref (selectTasks exampleState) \<notin> cachedRefs ?w0"
    by (simp add: cachedRefs_def)
  have fresh: "map score (smartSortedTasks 1800000 (elems (selectTasks exampleState))) = [200]"
    "map score (smartSortedTasks 0 (elems (selectTasks exampleState))) = [150]"
    by (simp_all add: selectTasks_def exampleState_def smartSortedTasks_def Array_sort_def
        score_withScore s)
  note first = selectSmartSortedTasks_memoised
    [where m = LastInput and state = exampleState and state' = exampleState
       and later = 1800000 and w = ?w0]
  from first cold have r0: "fst ?r = smartSortedTasks 0 (elems (selectTasks exampleState))"
    and n0: "recomputations (snd ?r) = 1"
    by simp_all
  from first have again: "selectSmartSortedTasks LastInput exampleState ?w1 = (fst ?r, ?w1)"
    by simp
  from first have held: "ref (selectTasks exampleState) \<in> cachedRefs ?w1"
    by (simp add: cachedRefs_def)
  show ?thesis
    using cold held by (simp add: again r0 n0 fresh)
qed

section \<open>Properties of the notification scheduler\<close>

lemma schedule_rejected:
  "rejects svc RequestPermission \<Longrightarrow>
     scheduleTaskNotifications t now svc
       = (Inl (Rejected RequestPermission), svc\<lparr>calls := calls svc @ [RequestPermission]\<rparr>)"
  by (simp add: scheduleTaskNotifications_def requestPermission_def)

lemma schedule_denied:
  "\<not> rejects svc RequestPermission \<Longrightarrow> \<not> granted svc \<Longrightarrow>
     scheduleTaskNotifications t now svc
       = (Inr (), svc\<lparr>calls := calls svc @ [RequestPermission]\<rparr>)"
  by (auto simp: scheduleTaskNotifications_def requestPermission_def granted_def
      split: option.splits)

lemma schedule_calls:
  "calls (snd (scheduleTaskNotifications t now svc)) =
     calls svc @ [RequestPermission]
     @ (if granted svc \<and> now < deadline t - 3600000
        then [CreateTriggerNotification (reminderNotification t) (reminderTrigger t)] else [])
     @ (if granted svc \<and> now < deadline t
        then [CreateTriggerNotification (deadlineNotification t) (deadlineTrigger t)] else [])"
proof (cases "rejects svc RequestPermission")
  case True
  then show ?thesis by (simp add: schedule_rejected granted_def)
next
  case False
  show ?thesis
  proof (cases "granted svc")
    case g: False
    then show ?thesis using False by (simp add: schedule_denied)
  next
    case g: True
    then obtain s where s: "authorizationStatus svc = Some s" "1 \<le> s"
      by (auto simp: granted_def split: option.splits)
    show ?thesis
      using False g s
      by (simp add: scheduleTaskNotifications_def requestPermission_def
          createTriggerNotification_def ONE_HOUR_MS_def Let_def split: prod.splits)
  qed
qed



lemma payload_fields:
  "notification_id (reminderNotification t) = task_id t @ ''-reminder''
   \<and> timestamp (reminderTrigger t) = deadline t - 3600000
   \<and> alarmManager (reminderTrigger t) = None
   \<and> notification_id (deadlineNotification t) = task_id t @ ''-deadline''
   \<and> timestamp (deadlineTrigger t) = deadline t
   \<and> alarmManager (deadlineTrigger t) = Some \<lparr>allowWhileIdle = True\<rparr>"
  by (simp add: reminderNotification_def reminderTrigger_def deadlineNotification_def
      deadlineTrigger_def REMINDER_SUFFIX_def DEADLINE_SUFFIX_def ONE_HOUR_MS_def)

lemma schedule_new_calls:
  "drop (length (calls svc)) (calls (snd (scheduleTaskNotifications t now svc))) =
     [RequestPermission]
     @ (if granted svc \<and> now < deadline t - 3600000
        then [CreateTriggerNotification (reminderNotification t) (reminderTrigger t)] else [])
     @ (if granted svc \<and> now < deadline t
        then [CreateTriggerNotification (deadlineNotification t) (deadlineTrigger t)] else [])"
  by (simp only: schedule_calls append_eq_conv_conj drop_append length_drop)
     simp

lemma cancel_calls:
  "calls (snd (cancelTaskNotifications taskId svc))
     = calls svc @ [CancelTriggerNotification (taskId @ ''-reminder''),
                    CancelTriggerNotification (taskId @ ''-deadline'')]"
  by (simp add: cancelTaskNotifications_def cancelTriggerNotification_def
      REMINDER_SUFFIX_def DEADLINE_SUFFIX_def Let_def split: prod.splits)

lemma cancel_resolves:
  assumes "\<not> rejects svc (CancelTriggerNotification (taskId @ ''-reminder''))"
      "\<not> rejects svc (CancelTriggerNotification (taskId @ ''-deadline''))"
  shows "fst (cancelTaskNotifications taskId svc) = Inr ()
       \<and> pending (snd (cancelTaskNotifications taskId svc))
           = (pending svc)(taskId @ ''-reminder'' := None, taskId @ ''-deadline'' := None)"
  using assms
  by (simp add: cancelTaskNotifications_def cancelTriggerNotification_def
      REMINDER_SUFFIX_def DEADLINE_SUFFIX_def Let_def split: prod.splits)

lemma cancel_absent:
  assumes "\<not> rejects svc (CancelTriggerNotification (taskId @ ''-reminder''))"
      "\<not> rejects svc (CancelTriggerNotification (taskId @ ''-deadline''))"
      "pending svc (taskId @ ''-reminder'') = None" "pending svc (taskId @ ''-deadline'') = None"
  shows "cancelTaskNotifications taskId svc
       = (Inr (), svc\<lparr>calls := calls svc @ [CancelTriggerNotification (taskId @ ''-reminder''),
                    CancelTriggerNotification (taskId @ ''-deadline'')]\<rparr>)"
  using assms
  by (simp add: cancelTaskNotifications_def cancelTriggerNotification_def
      REMINDER_SUFFIX_def DEADLINE_SUFFIX_def Let_def fun_upd_idem split: prod.splits)



text \<open>
  C8.  Every delivery request that a call of \<open>scheduleTaskNotifications\<close> submits is
  either the reminder, with the id \<open>task id + "-reminder"\<close>, the fire time
  \<open>deadline - 1 hour\<close> and no alarm-manager flag, or the deadline alert, with the id
  \<open>task id + "-deadline"\<close>, the fire time \<open>deadline\<close> and \<open>allowWhileIdle\<close> set; each of
  them is submitted when permission is granted and its time is after now.
\<close>

theorem scheduleTaskNotifications_payloads:
  "(CreateTriggerNotification n tr
      \<in> set (drop (length (calls svc)) (calls (snd (scheduleTaskNotifications t now svc))))
    \<longrightarrow> (notification_id n = task_id t @ ''-reminder''
           \<and> timestamp tr = deadline t - 3600000 \<and> alarmManager tr = None)
        \<or> (notification_id n = task_id t @ ''-deadline''
           \<and> timestamp tr = deadline t \<and> alarmManager tr = Some \<lparr>allowWhileIdle = True\<rparr>))
   \<and> (granted svc \<and> now < deadline t - 3600000 \<longrightarrow>
        CreateTriggerNotification (reminderNotification t) (reminderTrigger t)
          \<in> set (drop (length (calls svc)) (calls (snd (scheduleTaskNotifications t now svc)))))
   \<and> (granted svc \<and> now < deadline t \<longrightarrow>
        CreateTriggerNotification (deadlineNotification t) (deadlineTrigger t)
          \<in> set (drop (length (calls svc)) (calls (snd (scheduleTaskNotifications t now svc)))))
   \<and> notification_id (reminderNotification t) = task_id t @ ''-reminder''
   \<and> timestamp (reminderTrigger t) = deadline t - 3600000
   \<and> alarmManager (reminderTrigger t) = None
   \<and> notification_id (deadlineNotification t) = task_id t @ ''-deadline''
   \<and> timestamp (deadlineTrigger t) = deadline t
   \<and> alarmManager (deadlineTrigger t) = Some \<lparr>allowWhileIdle = True\<rparr>"
proof -
  have 1: "CreateTriggerNotification n tr
      \<in> set (drop (length (calls svc)) (calls (snd (scheduleTaskNotifications t now svc))))
    \<longrightarrow> (notification_id n = task_id t @ ''-reminder''
           \<and> timestamp tr = deadline t - 3600000 \<and> alarmManager tr = None)
        \<or> (notification_id n = task_id t @ ''-deadline''
           \<and> timestamp tr = deadline t \<and> alarmManager tr = Some \<lparr>allowWhileIdle = True\<rparr>)"
    using payload_fields [of t]
    by (auto simp: schedule_new_calls split: if_splits)
  have 2: "granted svc \<and> now < deadline t - 3600000 \<longrightarrow>
        CreateTriggerNotification (reminderNotification t) (reminderTrigger t)
          \<in> set (drop (length (calls svc)) (calls (snd (scheduleTaskNotifications t now svc))))"
    by (simp add: schedule_new_calls)
  have 3: "granted svc \<and> now < deadline t \<longrightarrow>
        CreateTriggerNotification (deadlineNotification t) (deadlineTrigger t)
          \<in> set (drop (length (calls svc)) (calls (snd (scheduleTaskNotifications t now svc))))"
    by (simp add: schedule_new_calls)
  from 1 2 3 payload_fields [of t] show ?thesis by blast
qed

text \<open>
  An instance, at now = 0 with permission and a deadline two hours ahead: the reminder
  and the deadline alert are both submitted, the reminder for 3600000 without the flag
  and the deadline alert for 7200000 with it.
\<close>

theorem scheduleTaskNotifications_payloads_witness:
  "granted (exampleService (Some 1))
   \<and> (0::int) < deadline (exampleTask ''A'' LOW 7200000 PENDING None) - 3600000
   \<and> map (\<lambda>c. case c of
              CreateTriggerNotification n tr \<Rightarrow> (notification_id n, timestamp tr, alarmManager tr)
            | _ \<Rightarrow> ([], 0, None))
        (calls (snd (scheduleTaskNotifications (exampleTask ''A'' LOW 7200000 PENDING None) 0
                       (exampleService (Some 1)))))
      = [([], 0, None),
         (''A-reminder'', 3600000, None),
         (''A-deadline'', 7200000, Some \<lparr>allowWhileIdle = True\<rparr>)]"
  using scheduleTaskNotifications_payloads
      [where t = "exampleTask ''A'' LOW 7200000 PENDING None" and now = 0
         and svc = "exampleService (Some 1)"]
  by (simp add: scheduleTaskNotifications_def requestPermission_def
      createTriggerNotification_def granted_def exampleService_def exampleTask_def
      reminderNotification_def reminderTrigger_def REMINDER_SUFFIX_def
      deadlineNotification_def deadlineTrigger_def DEADLINE_SUFFIX_def ONE_HOUR_MS_def Let_def)

text \<open>
  C9.  \<open>cancelTaskNotifications\<close> requests the cancellation of exactly the two ids
  \<open>taskId + "-reminder"\<close> and \<open>taskId + "-deadline"\<close>, whatever the service holds; they
  are the ids under which \<open>scheduleTaskNotifications\<close> submits.  When the service
  rejects neither request the call resolves and both ids are absent afterwards; when
  they were absent before, nothing but the log of requests has changed.
\<close>

theorem cancelTaskNotifications_ids:
  "calls (snd (cancelTaskNotifications taskId svc))
     = calls svc @ [CancelTriggerNotification (taskId @ ''-reminder''),
                    CancelTriggerNotification (taskId @ ''-deadline'')]
   \<and> calls (snd (cancelTaskNotifications (task_id t) svc))
     = calls svc @ [CancelTriggerNotification (notification_id (reminderNotification t)),
                    CancelTriggerNotification (notification_id (deadlineNotification t))]
   \<and> (\<not> rejects svc (CancelTriggerNotification (taskId @ ''-reminder''))
      \<and> \<not> rejects svc (CancelTriggerNotification (taskId @ ''-deadline'')) \<longrightarrow>
        fst (cancelTaskNotifications taskId svc) = Inr ()
        \<and> pending (snd (cancelTaskNotifications taskId svc))
            = (pending svc)(taskId @ ''-reminder'' := None, taskId @ ''-deadline'' := None))
   \<and> (\<not> rejects svc (CancelTriggerNotification (taskId @ ''-reminder''))
      \<and> \<not> rejects svc (CancelTriggerNotification (taskId @ ''-deadline''))
      \<and> pending svc (taskId @ ''-reminder'') = None
      \<and> pending svc (taskId @ ''-deadline'') = None \<longrightarrow>
        cancelTaskNotifications taskId svc
          = (Inr (), svc\<lparr>calls := calls svc @ [CancelTriggerNotification (taskId @ ''-reminder''),
                    CancelTriggerNotification (taskId @ ''-deadline'')]\<rparr>))"
proof (intro conjI impI)
  show "calls (snd (cancelTaskNotifications taskId svc))
     = calls svc @ [CancelTriggerNotification (taskId @ ''-reminder''),
                    CancelTriggerNotification (taskId @ ''-deadline'')]"
    by (rule cancel_calls)
next
  show "calls (snd (cancelTaskNotifications (task_id t) svc))
     = calls svc @ [CancelTriggerNotification (notification_id (reminderNotification t)),
                    CancelTriggerNotification (notification_id (deadlineNotification t))]"
    using payload_fields [of t] by (simp add: cancel_calls)
next
  assume a: "\<not> rejects svc (CancelTriggerNotification (taskId @ ''-reminder''))
      \<and> \<not> rejects svc (CancelTriggerNotification (taskId @ ''-deadline''))"
  then have "fst (cancelTaskNotifications taskId svc) = Inr ()
        \<and> pending (snd (cancelTaskNotifications taskId svc))
            = (pending svc)(taskId @ ''-reminder'' := None, taskId @ ''-deadline'' := None)"
    by (intro cancel_resolves) simp_all
  then show "fst (cancelTaskNotifications taskId svc) = Inr ()"
    and "pending (snd (cancelTaskNotifications taskId svc))
            = (pending svc)(taskId @ ''-reminder'' := None, taskId @ ''-deadline'' := None)"
    by simp_all
next
  assume "\<not> rejects svc (CancelTriggerNotification (taskId @ ''-reminder''))
      \<and> \<not> rejects svc (CancelTriggerNotification (taskId @ ''-deadline''))
      \<and> pending svc (taskId @ ''-reminder'') = None
      \<and> pending svc (taskId @ ''-deadline'') = None"
  then show "cancelTaskNotifications taskId svc
          = (Inr (), svc\<lparr>calls := calls svc @ [CancelTriggerNotification (taskId @ ''-reminder''),
                    CancelTriggerNotification (taskId @ ''-deadline'')]\<rparr>)"
    by (intro cancel_absent) simp_all
qed

text \<open>
  Instances: cancelling for an id the service has never seen resolves and leaves the
  service empty; cancelling after scheduling removes both triggers again.
\<close>

theorem cancelTaskNotifications_ids_witness:
  "pending (exampleService (Some 1)) ''unknown-reminder'' = None
   \<and> pending (exampleService (Some 1)) ''unknown-deadline'' = None
   \<and> cancelTaskNotifications ''unknown'' (exampleService (Some 1))
      = (Inr (), (exampleService (Some 1))
           \<lparr>calls := [CancelTriggerNotification ''unknown-reminder'',
                      CancelTriggerNotification ''unknown-deadline'']\<rparr>)
   \<and> dom (pending (snd (scheduleTaskNotifications
             (exampleTask ''A'' LOW 7200000 PENDING None) 0 (exampleService (Some 1)))))
      = {''A-deadline'', ''A-reminder''}
   \<and> pending (snd (cancelTaskNotifications ''A''
        (snd (scheduleTaskNotifications (exampleTask ''A'' LOW 7200000 PENDING None) 0
               (exampleService (Some 1))))))
      = Map.empty"
  using cancelTaskNotifications_ids
      [where taskId = "''unknown''" and svc = "exampleService (Some 1)"]
    cancelTaskNotifications_ids
      [where taskId = "''A''"
         and svc = "snd (scheduleTaskNotifications (exampleTask ''A'' LOW 7200000 PENDING None) 0
               (exampleService (Some 1)))"]
  by (simp add: cancelTaskNotifications_def cancelTriggerNotification_def
      scheduleTaskNotifications_def requestPermission_def
      createTriggerNotification_def exampleService_def exampleTask_def
      reminderNotification_def reminderTrigger_def REMINDER_SUFFIX_def
      deadlineNotification_def deadlineTrigger_def DEADLINE_SUFFIX_def ONE_HOUR_MS_def Let_def)

end
